theory Spec2Isabelle
  imports Main
begin

section \<open>Bootstrap of the ArtReal backend (backend/app/main.py)\<close>

text \<open>
  The module \<^verbatim>\<open>backend/app/main.py\<close> is a sequence of top-level statements: it configures
  logging, imports the settings, builds the web application, registers the CORS middleware
  and two endpoints, imports the database module and the API router, attaches the router,
  sets three logger levels and registers a startup and a shutdown handler. The model is a
  small exception-and-state semantics: a statement maps the process state to a new state
  and says whether an exception is propagating.
\<close>

subsection \<open>Exceptions and log records\<close>

text \<open>
  A raised Python exception: whether its class derives from \<^verbatim>\<open>Exception\<close> (the classes
  that \<^verbatim>\<open>except Exception\<close> handles; \<^verbatim>\<open>SystemExit\<close>, \<^verbatim>\<open>KeyboardInterrupt\<close> and
  \<^verbatim>\<open>asyncio.CancelledError\<close> derive from \<^verbatim>\<open>BaseException\<close> only), the text of
  \<^verbatim>\<open>str(e)\<close>, and the text \<^verbatim>\<open>traceback.format_exc()\<close> returns while it is handled.
\<close>

datatype exc = Exc (is_Exception: bool) (message: string) (format_exc: string)

definition NameError :: "string \<Rightarrow> exc" where
  "NameError n = Exc True (''name '' @ [CHR 0x27] @ n @ [CHR 0x27] @ '' is not defined'')
                   (''NameError: name '' @ [CHR 0x27] @ n @ [CHR 0x27] @ '' is not defined'')"

datatype level = DEBUG_level | INFO_level | ERROR_level

text \<open>
  Python strings are modelled as byte strings in UTF-8; the five pictographs of the log
  messages are written out as their bytes.
\<close>

definition rocket :: string where "rocket = [CHR 0xF0, CHR 0x9F, CHR 0x9A, CHR 0x80]"
definition pin :: string where "pin = [CHR 0xF0, CHR 0x9F, CHR 0x93, CHR 0x8D]"
definition check_mark :: string where "check_mark = [CHR 0xE2, CHR 0x9C, CHR 0x85]"
definition cross_mark :: string where "cross_mark = [CHR 0xE2, CHR 0x9D, CHR 0x8C]"
definition package :: string where "package = [CHR 0xF0, CHR 0x9F, CHR 0x93, CHR 0xA6]"

definition str_bool :: "bool \<Rightarrow> string" where
  "str_bool b = (if b then ''True'' else ''False'')"

subsection \<open>Settings, responses, routes and the application object\<close>

text \<open>The four attributes of \<^verbatim>\<open>app.core.config.settings\<close> that the module reads.\<close>

record app_settings =
  APP_NAME :: string
  APP_VERSION :: string
  DEBUG :: bool
  API_V1_PREFIX :: string

datatype json = Str string | Dict "(string \<times> json) list"

record response =
  status_code :: nat
  json_body :: json

text \<open>
  An endpoint is one of the two functions of the module, or an endpoint of the imported
  router, which is opaque here and stands for the response it gives.
\<close>

datatype endpoint = Root | HealthCheck | RouterEndpoint response

record route =
  methods :: "string list"
  path :: string
  endpoint :: endpoint

record cors =
  allow_origins :: "string list"
  allow_credentials :: bool
  allow_methods :: "string list"
  allow_headers :: "string list"
  expose_headers :: "string list"

datatype middleware = CORSMiddleware cors

text \<open>
  A lifecycle handler is one of the two functions of the module, or a handler of the
  imported router, which is opaque here and stands for what a call of it does: it returns
  (\<open>None\<close>) or raises.
\<close>

datatype hook = StartupEvent | ShutdownEvent | RouterHandler "exc option"

text \<open>
  The router object \<^verbatim>\<open>app.api.api_router\<close>: its routes and the startup and shutdown
  handlers registered on it.
\<close>

record api_router_object =
  router_object_routes :: "route list"
  router_object_on_startup :: "hook list"
  router_object_on_shutdown :: "hook list"

text \<open>
  The \<^verbatim>\<open>FastAPI\<close> object: the constructor arguments of lines 38-43, the middleware
  stack (\<^verbatim>\<open>add_middleware\<close> inserts at the front), the route table in registration order
  and the two lists of lifecycle handlers. The documentation routes the framework adds by
  itself (\<^verbatim>\<open>/docs\<close>, \<^verbatim>\<open>/redoc\<close>, \<^verbatim>\<open>/openapi.json\<close>) are left out.
\<close>

record fastapi =
  title :: string
  version :: string
  debug :: bool
  redirect_slashes :: bool
  user_middleware :: "middleware list"
  routes :: "route list"
  on_startup :: "hook list"
  on_shutdown :: "hook list"

subsection \<open>The environment and the process state\<close>

text \<open>
  The operations of the module that reach outside it, one per call site. Each may return
  or raise; what it does is given by the environment.
\<close>

datatype op =
    BasicConfig                    \<comment> \<open>line 11: \<^verbatim>\<open>logging.basicConfig(...)\<close>\<close>
  | ImportSettings                 \<comment> \<open>line 30: \<^verbatim>\<open>from app.core.config import settings\<close>\<close>
  | CreateApp                      \<comment> \<open>line 38: \<^verbatim>\<open>FastAPI(...)\<close>\<close>
  | AddMiddleware                  \<comment> \<open>line 46: \<^verbatim>\<open>app.add_middleware(...)\<close>\<close>
  | RegisterRoute string           \<comment> \<open>lines 56 and 66: \<^verbatim>\<open>@app.get(path)\<close>\<close>
  | ImportInitDb                   \<comment> \<open>line 75: \<^verbatim>\<open>from app.db import init_db\<close>\<close>
  | ImportApiRouter                \<comment> \<open>line 83: \<^verbatim>\<open>from app.api import api_router\<close>\<close>
  | IncludeRouter                  \<comment> \<open>line 91: \<^verbatim>\<open>app.include_router(...)\<close>\<close>
  | SetLevel string                \<comment> \<open>lines 95-97: \<^verbatim>\<open>logging.getLogger(name).setLevel(...)\<close>\<close>
  | OnEvent string                 \<comment> \<open>lines 100 and 112: \<^verbatim>\<open>@app.on_event(name)\<close>\<close>
  | CallInitDb                     \<comment> \<open>line 105: \<^verbatim>\<open>init_db()\<close>\<close>
  | ImportShutdownOrchestrators    \<comment> \<open>line 116: \<^verbatim>\<open>from app.agents import shutdown_orchestrators\<close>\<close>
  | CallShutdownOrchestrators      \<comment> \<open>line 117: \<^verbatim>\<open>await shutdown_orchestrators()\<close>\<close>

record world =
  getcwd :: string                           \<comment> \<open>\<^verbatim>\<open>os.getcwd()\<close>\<close>
  environ_PORT :: "string option"            \<comment> \<open>\<^verbatim>\<open>os.environ.get('PORT')\<close>\<close>
  raises :: "op \<Rightarrow> exc option"               \<comment> \<open>the exception an operation raises, if any\<close>
  config_settings :: app_settings            \<comment> \<open>the object \<^verbatim>\<open>app.core.config.settings\<close>\<close>
  router_routes :: "route list"              \<comment> \<open>the routes of \<^verbatim>\<open>app.api.api_router\<close>\<close>
  router_on_startup :: "exc option list"     \<comment> \<open>what each startup handler of the router does\<close>
  router_on_shutdown :: "exc option list"    \<comment> \<open>what each shutdown handler of the router does\<close>

text \<open>
  The state of the process: the log records emitted so far, the module globals
  \<^verbatim>\<open>settings\<close>, \<^verbatim>\<open>app\<close>, \<^verbatim>\<open>init_db\<close> and \<^verbatim>\<open>api_router\<close> (unbound until their statement
  has run), the levels set on named loggers, and two histories kept for the proofs: the
  operations attempted and the lifecycle handlers invoked, in order.
\<close>

record pstate =
  records :: "(level \<times> string) list"
  settings :: "app_settings option"
  app :: "fastapi option"
  init_db :: bool
  api_router :: "api_router_object option"
  logger_levels :: "(string \<times> level) list"
  performed :: "op list"
  invoked :: "hook list"

definition initial :: pstate where
  "initial = \<lparr>records = [], settings = None, app = None, init_db = False,
              api_router = None, logger_levels = [], performed = [], invoked = []\<rparr>"

subsection \<open>Statements\<close>

type_synonym stmt = "pstate \<Rightarrow> exc option \<times> pstate"

definition raise :: "exc \<Rightarrow> stmt" where
  "raise e s = (Some e, s)"

definition assign :: "(pstate \<Rightarrow> pstate) \<Rightarrow> stmt" where
  "assign f s = (None, f s)"

text \<open>A suite of statements runs in order and stops at the first exception.\<close>

fun block :: "stmt list \<Rightarrow> stmt" where
  "block [] s = (None, s)"
| "block (c # cs) s =
     (case c s of (None, s') \<Rightarrow> block cs s' | (Some e, s') \<Rightarrow> (Some e, s'))"

text \<open>
  \<^verbatim>\<open>try: body / except Exception as e: handler\<close>. An exception whose class does not
  derive from \<^verbatim>\<open>Exception\<close> passes through.
\<close>

definition try_except_Exception :: "stmt \<Rightarrow> (exc \<Rightarrow> stmt) \<Rightarrow> stmt" where
  "try_except_Exception body handler s =
     (case body s of
        (None, s') \<Rightarrow> (None, s')
      | (Some e, s') \<Rightarrow> if is_Exception e then handler e s' else (Some e, s'))"

definition logger_info :: "string \<Rightarrow> stmt" where
  "logger_info m = assign (\<lambda>s. s\<lparr>records := records s @ [(INFO_level, m)]\<rparr>)"

definition logger_error :: "string \<Rightarrow> stmt" where
  "logger_error m = assign (\<lambda>s. s\<lparr>records := records s @ [(ERROR_level, m)]\<rparr>)"

definition perform :: "world \<Rightarrow> op \<Rightarrow> stmt" where
  "perform w x s = (raises w x, s\<lparr>performed := performed s @ [x]\<rparr>)"

text \<open>Reading a module global that is not bound yet raises \<^verbatim>\<open>NameError\<close>.\<close>

definition with_settings :: "(app_settings \<Rightarrow> stmt) \<Rightarrow> stmt" where
  "with_settings f s =
     (case settings s of None \<Rightarrow> raise (NameError ''settings'') s | Some cfg \<Rightarrow> f cfg s)"

definition with_app :: "(fastapi \<Rightarrow> stmt) \<Rightarrow> stmt" where
  "with_app f s = (case app s of None \<Rightarrow> raise (NameError ''app'') s | Some a \<Rightarrow> f a s)"

definition update_app :: "(fastapi \<Rightarrow> fastapi) \<Rightarrow> stmt" where
  "update_app f = with_app (\<lambda>a. assign (\<lambda>s. s\<lparr>app := Some (f a)\<rparr>))"

subsection \<open>The statements of the module, in source order\<close>

text \<open>Lines 11-21: logging is configured, then three informational records are emitted.\<close>

definition configure_logging :: "world \<Rightarrow> stmt" where
  "configure_logging w = block
     [perform w BasicConfig,
      logger_info (rocket @ '' Starting ArtReal Backend...''),
      logger_info (pin @ '' Working directory: '' @ getcwd w),
      logger_info (pin @ '' PORT env: '' @
                   (case environ_PORT w of None \<Rightarrow> ''not set'' | Some p \<Rightarrow> p))]"

text \<open>Lines 29-35: the settings import, logged and re-raised on failure.\<close>

definition load_settings :: "world \<Rightarrow> stmt" where
  "load_settings w = try_except_Exception
     (block
        [perform w ImportSettings,
         assign (\<lambda>s. s\<lparr>settings := Some (config_settings w)\<rparr>),
         with_settings (\<lambda>cfg. logger_info
            (check_mark @ '' Settings loaded (DEBUG='' @ str_bool (DEBUG cfg) @ '')''))])
     (\<lambda>e. block
        [logger_error (cross_mark @ '' Failed to load settings: '' @ message e),
         logger_error (format_exc e),
         raise e])"

text \<open>Lines 38-43: the application object.\<close>

definition create_app :: "world \<Rightarrow> stmt" where
  "create_app w = with_settings (\<lambda>cfg. block
     [perform w CreateApp,
      assign (\<lambda>s. s\<lparr>app := Some
         \<lparr>title = APP_NAME cfg, version = APP_VERSION cfg, debug = DEBUG cfg,
          redirect_slashes = False, user_middleware = [], routes = [],
          on_startup = [], on_shutdown = []\<rparr>\<rparr>)])"

text \<open>Lines 46-53: the CORS middleware.\<close>

definition cors_policy :: cors where
  "cors_policy = \<lparr>allow_origins = [''*''], allow_credentials = False,
                  allow_methods = [''*''], allow_headers = [''*''],
                  expose_headers = [''*'']\<rparr>"

definition add_cors :: "world \<Rightarrow> stmt" where
  "add_cors w = with_app (\<lambda>a0. block
     [perform w AddMiddleware,
      update_app (\<lambda>a. a\<lparr>user_middleware := CORSMiddleware cors_policy # user_middleware a\<rparr>)])"

text \<open>Lines 56-69: the two endpoints and their registration with \<^verbatim>\<open>@app.get\<close>.\<close>

definition root :: "app_settings \<Rightarrow> json" where
  "root cfg = Dict [(''message'', Str ''Welcome to ArtReal API''),
                    (''version'', Str (APP_VERSION cfg)),
                    (''docs'', Str ''/docs'')]"

definition health_check :: json where
  "health_check = Dict [(''status'', Str ''healthy'')]"

definition app_get :: "world \<Rightarrow> string \<Rightarrow> endpoint \<Rightarrow> stmt" where
  "app_get w p f = with_app (\<lambda>a0. block
     [perform w (RegisterRoute p),
      update_app (\<lambda>a. a\<lparr>routes := routes a @ [\<lparr>methods = [''GET''], path = p, endpoint = f\<rparr>]\<rparr>)])"

text \<open>Lines 74-80 and 82-88: the two heavier imports, logged and re-raised on failure.\<close>

definition import_init_db :: "world \<Rightarrow> stmt" where
  "import_init_db w = try_except_Exception
     (block
        [perform w ImportInitDb,
         assign (\<lambda>s. s\<lparr>init_db := True\<rparr>),
         logger_info (check_mark @ '' Database module imported'')])
     (\<lambda>e. block
        [logger_error (cross_mark @ '' Failed to import database module: '' @ message e),
         logger_error (format_exc e),
         raise e])"

definition the_api_router :: "world \<Rightarrow> api_router_object" where
  "the_api_router w =
     \<lparr>router_object_routes = router_routes w,
      router_object_on_startup = map RouterHandler (router_on_startup w),
      router_object_on_shutdown = map RouterHandler (router_on_shutdown w)\<rparr>"

definition import_api_router :: "world \<Rightarrow> stmt" where
  "import_api_router w = try_except_Exception
     (block
        [perform w ImportApiRouter,
         assign (\<lambda>s. s\<lparr>api_router := Some (the_api_router w)\<rparr>),
         logger_info (check_mark @ '' API router imported'')])
     (\<lambda>e. block
        [logger_error (cross_mark @ '' Failed to import API router: '' @ message e),
         logger_error (format_exc e),
         raise e])"

text \<open>
  Lines 91-92: \<^verbatim>\<open>include_router\<close> appends the router's routes under the configured prefix,
  and the router's startup and shutdown handlers to those of the application.
\<close>

definition with_api_router :: "(api_router_object \<Rightarrow> stmt) \<Rightarrow> stmt" where
  "with_api_router f s =
     (case api_router s of None \<Rightarrow> raise (NameError ''api_router'') s | Some rt \<Rightarrow> f rt s)"

definition include_router :: "world \<Rightarrow> stmt" where
  "include_router w = with_app (\<lambda>a0. with_api_router (\<lambda>rt. with_settings (\<lambda>cfg. block
     [perform w IncludeRouter,
      update_app (\<lambda>a. a\<lparr>routes := routes a @
           map (\<lambda>r. r\<lparr>path := API_V1_PREFIX cfg @ path r\<rparr>) (router_object_routes rt),
         on_startup := on_startup a @ router_object_on_startup rt,
         on_shutdown := on_shutdown a @ router_object_on_shutdown rt\<rparr>),
      logger_info (check_mark @ '' API routes included at '' @ API_V1_PREFIX cfg)])))"

text \<open>Lines 95-97: three logger levels, with no handler around them.\<close>

definition setLevel :: "world \<Rightarrow> string \<Rightarrow> level \<Rightarrow> stmt" where
  "setLevel w n l = block
     [perform w (SetLevel n),
      assign (\<lambda>s. s\<lparr>logger_levels := logger_levels s @ [(n, l)]\<rparr>)]"

definition set_specific_loggers :: "world \<Rightarrow> stmt" where
  "set_specific_loggers w = block
     [setLevel w ''app.services.chat_service'' DEBUG_level,
      setLevel w ''app.agents'' DEBUG_level,
      setLevel w ''autogen'' INFO_level]"

text \<open>Lines 100-119: the two lifecycle handlers and their registration.\<close>

definition startup_event :: "world \<Rightarrow> stmt" where
  "startup_event w = try_except_Exception
     (block
        [logger_info (package @ '' Initializing database...''),
         (\<lambda>s. if init_db s then perform w CallInitDb s else raise (NameError ''init_db'') s),
         logger_info (check_mark @ '' Database initialized successfully'')])
     (\<lambda>e. block
        [logger_error (cross_mark @ '' Failed to initialize database: '' @ message e),
         logger_error (format_exc e)])"

definition shutdown_event :: "world \<Rightarrow> stmt" where
  "shutdown_event w = try_except_Exception
     (block
        [perform w ImportShutdownOrchestrators,
         perform w CallShutdownOrchestrators])
     (\<lambda>e. logger_error (cross_mark @ '' Error during shutdown: '' @ message e))"

definition on_event :: "world \<Rightarrow> string \<Rightarrow> hook \<Rightarrow> stmt" where
  "on_event w n h = with_app (\<lambda>a0. block
     [perform w (OnEvent n),
      update_app (\<lambda>a. if n = ''startup'' then a\<lparr>on_startup := on_startup a @ [h]\<rparr>
                       else a\<lparr>on_shutdown := on_shutdown a @ [h]\<rparr>)])"

subsection \<open>Stages and the module body\<close>

text \<open>
  The stages of the bootstrap, named as in the stage table of the specification, and
  \<open>WireLifecycleHooks\<close> for lines 100-121, which the table does not list. A stage is
  \<open>fatal\<close> when the source lets its exception propagate and \<open>non_fatal\<close> when the
  source handles it without re-raising.
\<close>

datatype stage =
    ConfigureLogging | LoadConfig | ConstructHandle | RegisterEndpoints
  | ImportDatabase | ImportRouter | AttachRouter | AdjustVerbosity
  | WireLifecycleHooks | StartupInitDatabase | ShutdownRelease

datatype policy = fatal | non_fatal

fun policy_of :: "stage \<Rightarrow> policy" where
  "policy_of StartupInitDatabase = non_fatal"
| "policy_of ShutdownRelease = non_fatal"
| "policy_of _ = fatal"

definition main_module :: "world \<Rightarrow> (stage \<times> stmt) list" where
  "main_module w =
     [(ConfigureLogging, configure_logging w),
      (LoadConfig, load_settings w),
      (ConstructHandle, create_app w),
      (ConstructHandle, add_cors w),
      (RegisterEndpoints, app_get w ''/'' Root),
      (RegisterEndpoints, app_get w ''/health'' HealthCheck),
      (RegisterEndpoints, logger_info
         (check_mark @ '' Basic FastAPI app created, now importing API modules...'')),
      (ImportDatabase, import_init_db w),
      (ImportRouter, import_api_router w),
      (AttachRouter, include_router w),
      (AdjustVerbosity, set_specific_loggers w),
      (WireLifecycleHooks, on_event w ''startup'' StartupEvent),
      (WireLifecycleHooks, on_event w ''shutdown'' ShutdownEvent),
      (WireLifecycleHooks, logger_info (check_mark @ '' FastAPI app ready to serve requests''))]"

text \<open>Importing the module runs its body from the initial state.\<close>

definition import_main :: "world \<Rightarrow> exc option \<times> pstate" where
  "import_main w = block (map snd (main_module w)) initial"

text \<open>
  The statements that begin to execute, each with its stage, the state it starts from and
  the exception it lets out, if any: the body stops at the first statement that lets an
  exception out.
\<close>

fun started :: "(stage \<times> stmt) list \<Rightarrow> pstate \<Rightarrow> (stage \<times> pstate \<times> exc option) list" where
  "started [] s = []"
| "started ((st, c) # cs) s =
     (st, s, fst (c s)) #
     (case c s of (None, s') \<Rightarrow> started cs s' | (Some e, s') \<Rightarrow> [])"

subsection \<open>The framework around the module\<close>

text \<open>
  What the web framework and the server do with the application object. A lifecycle
  transition calls the handlers registered for it, in order, each once; an exception that
  a handler lets out ends the transition.
\<close>

fun handler :: "world \<Rightarrow> hook \<Rightarrow> stmt" where
  "handler w StartupEvent = startup_event w"
| "handler w ShutdownEvent = shutdown_event w"
| "handler w (RouterHandler None) = assign (\<lambda>s. s)"
| "handler w (RouterHandler (Some e)) = raise e"

definition invoke :: "world \<Rightarrow> hook \<Rightarrow> stmt" where
  "invoke w h = block [assign (\<lambda>s. s\<lparr>invoked := invoked s @ [h]\<rparr>), handler w h]"

definition lifespan_startup :: "world \<Rightarrow> stmt" where
  "lifespan_startup w = with_app (\<lambda>a. block (map (invoke w) (on_startup a)))"

definition lifespan_shutdown :: "world \<Rightarrow> stmt" where
  "lifespan_shutdown w = with_app (\<lambda>a. block (map (invoke w) (on_shutdown a)))"

text \<open>
  The process serves once the module has been imported and the startup transition has
  finished, both without an exception getting out.
\<close>

datatype phase = ImportFailed exc | StartupFailed exc | Serving

definition start :: "world \<Rightarrow> phase \<times> pstate" where
  "start w =
     (case import_main w of
        (Some e, s) \<Rightarrow> (ImportFailed e, s)
      | (None, s) \<Rightarrow>
          (case lifespan_startup w s of
             (Some e, s') \<Rightarrow> (StartupFailed e, s')
           | (None, s') \<Rightarrow> (Serving, s')))"

text \<open>
  Routing: the first route whose path and method match answers; a path registered under
  other methods only gives 405, an unknown path 404 (the application is built with
  \<^verbatim>\<open>redirect_slashes=False\<close>). An endpoint that returns a dictionary is answered with
  status 200 and the dictionary as JSON.
\<close>

definition call_endpoint :: "pstate \<Rightarrow> endpoint \<Rightarrow> response" where
  "call_endpoint s f =
     (case f of
        Root \<Rightarrow>
          (case settings s of
             Some cfg \<Rightarrow> \<lparr>status_code = 200, json_body = root cfg\<rparr>
           | None \<Rightarrow> \<lparr>status_code = 500, json_body = Str ''Internal Server Error''\<rparr>)
      | HealthCheck \<Rightarrow> \<lparr>status_code = 200, json_body = health_check\<rparr>
      | RouterEndpoint r \<Rightarrow> r)"

definition handle_request :: "pstate \<Rightarrow> string \<Rightarrow> string \<Rightarrow> response" where
  "handle_request s m p =
     (case app s of
        None \<Rightarrow> \<lparr>status_code = 500, json_body = Str ''Internal Server Error''\<rparr>
      | Some a \<Rightarrow>
          (case find (\<lambda>r. path r = p \<and> m \<in> set (methods r)) (routes a) of
             Some r \<Rightarrow> call_endpoint s (endpoint r)
           | None \<Rightarrow>
               (case find (\<lambda>r. path r = p) (routes a) of
                  Some r \<Rightarrow> \<lparr>status_code = 405, json_body = Dict [(''detail'', Str ''Method Not Allowed'')]\<rparr>
                | None \<Rightarrow> \<lparr>status_code = 404, json_body = Dict [(''detail'', Str ''Not Found'')]\<rparr>)))"

text \<open>A request is answered only by a process that serves.\<close>

definition serve :: "world \<Rightarrow> string \<Rightarrow> string \<Rightarrow> response option" where
  "serve w m p = (case start w of (Serving, s) \<Rightarrow> Some (handle_request s m p) | _ \<Rightarrow> None)"

text \<open>Lines 124-132: the call of the server, with the arguments it is given.\<close>

record uvicorn_run =
  target :: string
  host :: string
  port :: nat
  reload :: bool

definition uvicorn_run_call :: "pstate \<Rightarrow> exc + uvicorn_run" where
  "uvicorn_run_call s =
     (case settings s of
        None \<Rightarrow> Inl (NameError ''settings'')
      | Some cfg \<Rightarrow> Inr \<lparr>target = ''app.main:app'', host = ''0.0.0.0'', port = 8000,
                          reload = DEBUG cfg\<rparr>)"

text \<open>
  Running the module as the main program: the module body, then, when it has completed,
  the call of the server.
\<close>

definition run_as_main :: "world \<Rightarrow> exc + uvicorn_run" where
  "run_as_main w =
     (case import_main w of (Some e, s) \<Rightarrow> Inl e | (None, s) \<Rightarrow> uvicorn_run_call s)"

text \<open>
  Process shutdown: a serving process runs the shutdown transition; one that never served
  has none to run.
\<close>

definition stop :: "world \<Rightarrow> (exc option \<times> pstate) option" where
  "stop w = (case start w of (Serving, s) \<Rightarrow> Some (lifespan_shutdown w s) | _ \<Rightarrow> None)"

subsection \<open>The CORS middleware of the framework\<close>

text \<open>
  The framework's \<^verbatim>\<open>CORSMiddleware\<close> (Starlette, \<^verbatim>\<open>middleware/cors.py\<close>), as configured at
  lines 46-53 with no \<^verbatim>\<open>allow_origin_regex\<close> and the default \<^verbatim>\<open>max_age\<close> of 600. Header
  names and values are strings of one character per code point (Latin-1), and a header
  dictionary is a list of pairs in insertion order.
\<close>

definition ALL_METHODS :: "string list" where
  "ALL_METHODS = [''DELETE'', ''GET'', ''HEAD'', ''OPTIONS'', ''PATCH'', ''POST'', ''PUT'']"

definition SAFELISTED_HEADERS :: "string list" where
  "SAFELISTED_HEADERS = [''Accept'', ''Accept-Language'', ''Content-Language'', ''Content-Type'']"

text \<open>\<^verbatim>\<open>sep.join(xs)\<close>, \<^verbatim>\<open>s.split(",")\<close>, \<^verbatim>\<open>s.lower()\<close> and \<^verbatim>\<open>s.strip()\<close>.\<close>

fun join :: "string \<Rightarrow> string list \<Rightarrow> string" where
  "join sep [] = []"
| "join sep [x] = x"
| "join sep (x # y # ys) = x @ sep @ join sep (y # ys)"

fun split_commas :: "string \<Rightarrow> string list" where
  "split_commas [] = [[]]"
| "split_commas (c # cs) =
     (if c = CHR '','' then [] # split_commas cs
      else (case split_commas cs of [] \<Rightarrow> [[c]] | x # xs \<Rightarrow> (c # x) # xs))"

definition lower_char :: "char \<Rightarrow> char" where
  "lower_char c =
     (let n = (of_char c :: nat)
      in if (65 \<le> n \<and> n \<le> 90) \<or> (192 \<le> n \<and> n \<le> 222 \<and> n \<noteq> 215)
         then char_of (n + 32) else c)"

definition lower :: "string \<Rightarrow> string" where
  "lower s = map lower_char s"

definition is_space :: "char \<Rightarrow> bool" where
  "is_space c = ((of_char c :: nat) \<in> {9, 10, 11, 12, 13, 28, 29, 30, 31, 32, 133, 160})"

definition strip :: "string \<Rightarrow> string" where
  "strip s = rev (dropWhile is_space (rev (dropWhile is_space s)))"

text \<open>\<^verbatim>\<open>sorted(set(xs))\<close> for strings, in code point order.\<close>

fun str_le :: "string \<Rightarrow> string \<Rightarrow> bool" where
  "str_le [] ys = True"
| "str_le (x # xs) [] = False"
| "str_le (x # xs) (y # ys) =
     ((of_char x :: nat) < of_char y \<or> (x = y \<and> str_le xs ys))"

fun insert_sorted :: "string \<Rightarrow> string list \<Rightarrow> string list" where
  "insert_sorted x [] = [x]"
| "insert_sorted x (y # ys) =
     (if x = y then y # ys
      else if str_le x y then x # y # ys
      else y # insert_sorted x ys)"

definition sorted_set :: "string list \<Rightarrow> string list" where
  "sorted_set xs = foldr insert_sorted xs []"

text \<open>\<^verbatim>\<open>d[k] = v\<close> on a dictionary: the value is replaced in place, or the pair appended.\<close>

fun setitem :: "(string \<times> string) list \<Rightarrow> string \<Rightarrow> string \<Rightarrow> (string \<times> string) list" where
  "setitem [] k v = [(k, v)]"
| "setitem (p # ps) k v = (if fst p = k then (k, v) # ps else p # setitem ps k v)"

text \<open>What the constructor of the middleware computes from its arguments.\<close>

definition effective_methods :: "cors \<Rightarrow> string list" where
  "effective_methods c = (if ''*'' \<in> set (allow_methods c) then ALL_METHODS else allow_methods c)"

definition allow_all_origins :: "cors \<Rightarrow> bool" where
  "allow_all_origins c = (''*'' \<in> set (allow_origins c))"

definition allow_all_headers :: "cors \<Rightarrow> bool" where
  "allow_all_headers c = (''*'' \<in> set (allow_headers c))"

definition preflight_explicit_allow_origin :: "cors \<Rightarrow> bool" where
  "preflight_explicit_allow_origin c = (\<not> allow_all_origins c \<or> allow_credentials c)"

definition sorted_allow_headers :: "cors \<Rightarrow> string list" where
  "sorted_allow_headers c = sorted_set (SAFELISTED_HEADERS @ allow_headers c)"

definition simple_headers :: "cors \<Rightarrow> (string \<times> string) list" where
  "simple_headers c =
     (if allow_all_origins c then [(''Access-Control-Allow-Origin'', ''*'')] else []) @
     (if allow_credentials c then [(''Access-Control-Allow-Credentials'', ''true'')] else []) @
     (if expose_headers c \<noteq> []
      then [(''Access-Control-Expose-Headers'', join '', '' (expose_headers c))] else [])"

definition preflight_headers :: "cors \<Rightarrow> (string \<times> string) list" where
  "preflight_headers c =
     (if preflight_explicit_allow_origin c then [(''Vary'', ''Origin'')]
      else [(''Access-Control-Allow-Origin'', ''*'')]) @
     [(''Access-Control-Allow-Methods'', join '', '' (effective_methods c)),
      (''Access-Control-Max-Age'', ''600'')] @
     (if sorted_allow_headers c \<noteq> [] \<and> \<not> allow_all_headers c
      then [(''Access-Control-Allow-Headers'', join '', '' (sorted_allow_headers c))] else []) @
     (if allow_credentials c then [(''Access-Control-Allow-Credentials'', ''true'')] else [])"

definition is_allowed_origin :: "cors \<Rightarrow> string \<Rightarrow> bool" where
  "is_allowed_origin c x = (if allow_all_origins c then True else x \<in> set (allow_origins c))"

text \<open>
  A preflight request: an \<^verbatim>\<open>OPTIONS\<close> request that carries an \<^verbatim>\<open>Origin\<close> header and an
  \<^verbatim>\<open>Access-Control-Request-Method\<close> header, and possibly an
  \<^verbatim>\<open>Access-Control-Request-Headers\<close> header. The middleware answers it by itself, with a
  plain text response; of its headers, those that the middleware sets are kept here.
\<close>

record preflight =
  request_path :: string
  origin :: string
  request_method :: string
  request_headers :: "string option"

record plain_text_response =
  text_status :: nat
  text_content :: string
  text_headers :: "(string \<times> string) list"

definition preflight_failures :: "cors \<Rightarrow> preflight \<Rightarrow> string list" where
  "preflight_failures c q =
     (if is_allowed_origin c (origin q) then [] else [''origin'']) @
     (if request_method q \<in> set (effective_methods c) then [] else [''method'']) @
     (case request_headers q of
        None \<Rightarrow> []
      | Some h \<Rightarrow>
          if allow_all_headers c then []
          else if list_all (\<lambda>x. strip x \<in> set (map lower (sorted_allow_headers c)))
                    (map lower (split_commas h))
          then [] else [''headers''])"

definition preflight_response :: "cors \<Rightarrow> preflight \<Rightarrow> plain_text_response" where
  "preflight_response c q =
     (let headers0 = preflight_headers c;
          headers1 = (if is_allowed_origin c (origin q) \<and> preflight_explicit_allow_origin c
                      then setitem headers0 ''Access-Control-Allow-Origin'' (origin q)
                      else headers0);
          headers2 = (case request_headers q of
                        None \<Rightarrow> headers1
                      | Some h \<Rightarrow> if allow_all_headers c
                                  then setitem headers1 ''Access-Control-Allow-Headers'' h
                                  else headers1);
          failures = preflight_failures c q
      in if failures \<noteq> []
         then \<lparr>text_status = 400, text_content = ''Disallowed CORS '' @ join '', '' failures,
               text_headers = headers2\<rparr>
         else \<lparr>text_status = 200, text_content = ''OK'', text_headers = headers2\<rparr>)"

text \<open>
  The CORS policy in force is that of the outermost middleware of the application. A
  preflight that reaches a serving process is answered by that middleware; without one
  it would go on to the router as an \<^verbatim>\<open>OPTIONS\<close> request.
\<close>

definition cors_of :: "pstate \<Rightarrow> cors option" where
  "cors_of s =
     (case app s of
        None \<Rightarrow> None
      | Some a \<Rightarrow> (case user_middleware a of [] \<Rightarrow> None | CORSMiddleware c # _ \<Rightarrow> Some c))"

definition handle_preflight :: "pstate \<Rightarrow> preflight \<Rightarrow> response + plain_text_response" where
  "handle_preflight s q =
     (case cors_of s of
        None \<Rightarrow> Inl (handle_request s ''OPTIONS'' (request_path q))
      | Some c \<Rightarrow> Inr (preflight_response c q))"

definition serve_preflight :: "world \<Rightarrow> preflight \<Rightarrow> (response + plain_text_response) option" where
  "serve_preflight w q =
     (case start w of (Serving, s) \<Rightarrow> Some (handle_preflight s q) | _ \<Rightarrow> None)"

subsection \<open>Notions used to state the properties\<close>

text \<open>The operations the module body performs, in order, when none of them raises.\<close>

definition module_ops :: "op list" where
  "module_ops =
     [BasicConfig, ImportSettings, CreateApp, AddMiddleware, RegisterRoute ''/'',
      RegisterRoute ''/health'', ImportInitDb, ImportApiRouter, IncludeRouter,
      SetLevel ''app.services.chat_service'', SetLevel ''app.agents'', SetLevel ''autogen'',
      OnEvent ''startup'', OnEvent ''shutdown'']"

text \<open>A world in which no operation of the module body raises.\<close>

definition quiet :: "world \<Rightarrow> bool" where
  "quiet w = list_all (\<lambda>x. raises w x = None) module_ops"

text \<open>
  The database initialisation returns, or raises an exception of class \<^verbatim>\<open>Exception\<close>;
  likewise for what runs inside the shutdown handler.
\<close>

definition init_db_returns_or_raises_Exception :: "world \<Rightarrow> bool" where
  "init_db_returns_or_raises_Exception w =
     (case raises w CallInitDb of None \<Rightarrow> True | Some e \<Rightarrow> is_Exception e)"

definition shutdown_error :: "world \<Rightarrow> exc option" where
  "shutdown_error w =
     (case raises w ImportShutdownOrchestrators of
        Some e \<Rightarrow> Some e
      | None \<Rightarrow> raises w CallShutdownOrchestrators)"

definition shutdown_returns_or_raises_Exception :: "world \<Rightarrow> bool" where
  "shutdown_returns_or_raises_Exception w =
     (case shutdown_error w of None \<Rightarrow> True | Some e \<Rightarrow> is_Exception e)"

text \<open>
  The exception of the first handler of a router that raises, if any, and the handlers
  the framework calls: those up to and including that one.
\<close>

fun first_error :: "exc option list \<Rightarrow> exc option" where
  "first_error [] = None"
| "first_error (None # rs) = first_error rs"
| "first_error (Some e # rs) = Some e"

fun attempted :: "exc option list \<Rightarrow> exc option list" where
  "attempted [] = []"
| "attempted (None # rs) = None # attempted rs"
| "attempted (Some e # rs) = [Some e]"

text \<open>The application object and the state the module body leaves in a quiet world.\<close>

definition built_app :: "world \<Rightarrow> fastapi" where
  "built_app w =
     \<lparr>title = APP_NAME (config_settings w), version = APP_VERSION (config_settings w),
      debug = DEBUG (config_settings w), redirect_slashes = False,
      user_middleware = [CORSMiddleware cors_policy],
      routes = \<lparr>methods = [''GET''], path = ''/'', endpoint = Root\<rparr> #
               \<lparr>methods = [''GET''], path = ''/health'', endpoint = HealthCheck\<rparr> #
               map (\<lambda>r. r\<lparr>path := API_V1_PREFIX (config_settings w) @ path r\<rparr>) (router_routes w),
      on_startup = map RouterHandler (router_on_startup w) @ [StartupEvent],
      on_shutdown = map RouterHandler (router_on_shutdown w) @ [ShutdownEvent]\<rparr>"

definition ready :: "world \<Rightarrow> pstate" where
  "ready w =
     \<lparr>records =
        [(INFO_level, rocket @ '' Starting ArtReal Backend...''),
         (INFO_level, pin @ '' Working directory: '' @ getcwd w),
         (INFO_level, pin @ '' PORT env: '' @
            (case environ_PORT w of None \<Rightarrow> ''not set'' | Some p \<Rightarrow> p)),
         (INFO_level, check_mark @ '' Settings loaded (DEBUG='' @
            str_bool (DEBUG (config_settings w)) @ '')''),
         (INFO_level, check_mark @ '' Basic FastAPI app created, now importing API modules...''),
         (INFO_level, check_mark @ '' Database module imported''),
         (INFO_level, check_mark @ '' API router imported''),
         (INFO_level, check_mark @ '' API routes included at '' @
            API_V1_PREFIX (config_settings w)),
         (INFO_level, check_mark @ '' FastAPI app ready to serve requests'')],
      settings = Some (config_settings w),
      app = Some (built_app w),
      init_db = True,
      api_router = Some (the_api_router w),
      logger_levels = [(''app.services.chat_service'', DEBUG_level),
                       (''app.agents'', DEBUG_level), (''autogen'', INFO_level)],
      performed = module_ops,
      invoked = []\<rparr>"

text \<open>The records the startup handler emits.\<close>

definition startup_records :: "world \<Rightarrow> (level \<times> string) list" where
  "startup_records w =
     (INFO_level, package @ '' Initializing database...'') #
     (case raises w CallInitDb of
        None \<Rightarrow> [(INFO_level, check_mark @ '' Database initialized successfully'')]
      | Some e \<Rightarrow> [(ERROR_level, cross_mark @ '' Failed to initialize database: '' @ message e),
                   (ERROR_level, format_exc e)])"

text \<open>The health endpoint is registered on the application object of a state.\<close>

definition health_registered :: "pstate \<Rightarrow> bool" where
  "health_registered s =
     (case app s of
        None \<Rightarrow> False
      | Some a \<Rightarrow> list_ex (\<lambda>r. path r = ''/health'' \<and> endpoint r = HealthCheck) (routes a))"

text \<open>
  The stages of the module body that come after the registration of the two endpoints,
  and those that come before it.
\<close>

definition before_endpoints :: "stage \<Rightarrow> bool" where
  "before_endpoints st = (st = ConfigureLogging \<or> st = LoadConfig \<or> st = ConstructHandle)"

definition after_endpoints :: "stage \<Rightarrow> bool" where
  "after_endpoints st =
     (st = ImportDatabase \<or> st = ImportRouter \<or> st = AttachRouter \<or> st = AdjustVerbosity \<or>
      st = WireLifecycleHooks)"

text \<open>
  The text with which the handler around each of the three imports of the module body
  announces a failure (lines 33, 78 and 86), and the operations of the module body that
  come before a given one.
\<close>

fun failure_text :: "op \<Rightarrow> string" where
  "failure_text ImportSettings = '' Failed to load settings: ''"
| "failure_text ImportInitDb = '' Failed to import database module: ''"
| "failure_text ImportApiRouter = '' Failed to import API router: ''"
| "failure_text _ = []"

definition before :: "op \<Rightarrow> op list" where
  "before x = takeWhile (\<lambda>y. y \<noteq> x) module_ops"

subsection \<open>Example worlds\<close>

definition boom :: exc where
  "boom = Exc True ''boom'' ''Traceback (most recent call last): RuntimeError: boom''"

definition calm :: world where
  "calm = \<lparr>getcwd = ''/app'', environ_PORT = Some ''8080'', raises = (\<lambda>x. None),
           config_settings = \<lparr>APP_NAME = ''ArtReal'', APP_VERSION = ''1.0.0'', DEBUG = False,
                              API_V1_PREFIX = ''/api/v1''\<rparr>,
           router_routes = [\<lparr>methods = [''GET''], path = ''/health'',
                             endpoint = RouterEndpoint \<lparr>status_code = 503, json_body = Str ''down''\<rparr>\<rparr>],
           router_on_startup = [], router_on_shutdown = []\<rparr>"

definition router_shutdown_fails :: world where
  "router_shutdown_fails = calm\<lparr>router_on_shutdown := [Some boom]\<rparr>"

definition failing :: "op \<Rightarrow> world" where
  "failing x = calm\<lparr>raises := (\<lambda>y. if y = x then Some boom else None)\<rparr>"

section \<open>Properties\<close>

subsection \<open>Suites of statements\<close>

lemmas stmt_defs = raise_def assign_def try_except_Exception_def logger_info_def
  logger_error_def perform_def with_settings_def with_app_def update_app_def
  with_api_router_def

lemmas module_defs = configure_logging_def load_settings_def create_app_def add_cors_def
  app_get_def import_init_db_def import_api_router_def include_router_def setLevel_def
  set_specific_loggers_def on_event_def

lemma block_always_raises:
  "c \<in> set cs \<Longrightarrow> (\<And>s. fst (c s) \<noteq> None) \<Longrightarrow> fst (block cs s) \<noteq> None"
proof (induction cs arbitrary: s)
  case Nil
  then show ?case by simp
next
  case (Cons d ds)
  show ?case
  proof (cases "d s")
    case (Pair r s')
    show ?thesis
    proof (cases r)
      case None
      have "c \<noteq> d" using Cons.prems(2) [of s] Pair None by auto
      then have "c \<in> set ds" using Cons.prems(1) by simp
      then have "fst (block ds s') \<noteq> None" using Cons.IH Cons.prems(2) by blast
      then show ?thesis using Pair None by simp
    next
      case (Some e)
      then show ?thesis using Pair by simp
    qed
  qed
qed

subsection \<open>The module body in a quiet world\<close>

lemma import_main_quiet: "quiet w \<Longrightarrow> import_main w = (None, ready w)"
  by (simp add: quiet_def module_ops_def import_main_def main_module_def initial_def
      stmt_defs module_defs ready_def built_app_def the_api_router_def)

subsection \<open>Lifecycle transitions\<close>

text \<open>
  The handlers of the router run first. When one of them raises, the transition ends
  there; otherwise the handlers that follow run.
\<close>

lemma block_single: "block [c] s = c s"
  by (cases "c s") (auto split: option.splits)

lemma invoke_router_returns:
  "invoke w (RouterHandler None) s = (None, s\<lparr>invoked := invoked s @ [RouterHandler None]\<rparr>)"
  by (simp add: invoke_def assign_def)

lemma invoke_router_raises:
  "invoke w (RouterHandler (Some e)) s =
     (Some e, s\<lparr>invoked := invoked s @ [RouterHandler (Some e)]\<rparr>)"
  by (simp add: invoke_def assign_def raise_def)

lemma run_router_handlers:
  "block (map (invoke w) (map RouterHandler rs @ hs)) s =
     (case first_error rs of
        None \<Rightarrow> block (map (invoke w) hs) (s\<lparr>invoked := invoked s @ map RouterHandler rs\<rparr>)
      | Some e \<Rightarrow> (Some e, s\<lparr>invoked := invoked s @ map RouterHandler (attempted rs)\<rparr>))"
proof (induction rs arbitrary: s)
  case Nil
  then show ?case by simp
next
  case (Cons r rs)
  show ?case
  proof (cases r)
    case None
    have "block (map (invoke w) (map RouterHandler (r # rs) @ hs)) s =
          block (map (invoke w) (map RouterHandler rs @ hs))
            (s\<lparr>invoked := invoked s @ [RouterHandler None]\<rparr>)"
      using None by (simp add: invoke_router_returns)
    then show ?thesis
      using None Cons.IH [of "s\<lparr>invoked := invoked s @ [RouterHandler None]\<rparr>"]
      by (simp split: option.splits)
  next
    case (Some e)
    then show ?thesis
      by (simp add: invoke_router_raises)
  qed
qed

lemma count_RouterHandler [simp]:
  "count_list (map RouterHandler rs) StartupEvent = 0"
  "count_list (map RouterHandler rs) ShutdownEvent = 0"
  by (induction rs) simp_all

lemma startup_event_result:
  assumes "init_db t" and "init_db_returns_or_raises_Exception w"
  shows "startup_event w t =
    (None, t\<lparr>performed := performed t @ [CallInitDb],
             records := records t @ startup_records w\<rparr>)"
  using assms
  by (auto simp add: startup_event_def stmt_defs startup_records_def
      init_db_returns_or_raises_Exception_def split: option.splits)

lemma shutdown_event_result:
  assumes "shutdown_returns_or_raises_Exception w"
  shows "shutdown_event w t =
    (None, t\<lparr>performed := performed t @
               (if raises w ImportShutdownOrchestrators = None
                then [ImportShutdownOrchestrators, CallShutdownOrchestrators]
                else [ImportShutdownOrchestrators]),
             records := records t @
               (case shutdown_error w of
                  None \<Rightarrow> []
                | Some e \<Rightarrow> [(ERROR_level, cross_mark @ '' Error during shutdown: '' @ message e)])\<rparr>)"
  using assms
  by (auto simp add: shutdown_event_def stmt_defs shutdown_returns_or_raises_Exception_def
      shutdown_error_def split: option.splits)

lemma start_after_import:
  assumes "quiet w"
  shows "start w =
    (case lifespan_startup w (ready w) of
       (Some e, s') \<Rightarrow> (StartupFailed e, s')
     | (None, s') \<Rightarrow> (Serving, s'))"
  by (simp add: start_def import_main_quiet [OF assms])

lemma lifespan_startup_ready:
  "lifespan_startup w (ready w) =
     (case first_error (router_on_startup w) of
        None \<Rightarrow> invoke w StartupEvent
                 ((ready w)\<lparr>invoked := map RouterHandler (router_on_startup w)\<rparr>)
      | Some e \<Rightarrow> (Some e, (ready w)\<lparr>invoked := map RouterHandler (attempted (router_on_startup w))\<rparr>))"
proof -
  have a: "app (ready w) = Some (built_app w)" and i: "invoked (ready w) = []"
    by (simp_all add: ready_def)
  have o: "on_startup (built_app w) = map RouterHandler (router_on_startup w) @ [StartupEvent]"
    by (simp add: built_app_def)
  show ?thesis
    unfolding lifespan_startup_def with_app_def a option.case o run_router_handlers
    by (simp add: i block_single del: block.simps split: option.splits)
qed

lemma start_quiet:
  assumes "quiet w" and "first_error (router_on_startup w) = None"
    and "init_db_returns_or_raises_Exception w"
  shows "start w =
    (Serving, (ready w)\<lparr>records := records (ready w) @ startup_records w,
                        performed := module_ops @ [CallInitDb],
                        invoked := map RouterHandler (router_on_startup w) @ [StartupEvent]\<rparr>)"
proof -
  let ?t = "(ready w)\<lparr>invoked := map RouterHandler (router_on_startup w)\<rparr>"
  have "init_db ?t" by (simp add: ready_def)
  then have "startup_event w (?t\<lparr>invoked := invoked ?t @ [StartupEvent]\<rparr>) =
      (None, (?t\<lparr>invoked := invoked ?t @ [StartupEvent]\<rparr>)
               \<lparr>performed := performed ?t @ [CallInitDb],
                records := records ?t @ startup_records w\<rparr>)"
    using startup_event_result [of "?t\<lparr>invoked := invoked ?t @ [StartupEvent]\<rparr>" w] assms(3)
    by simp
  then have "invoke w StartupEvent ?t =
      (None, (?t\<lparr>invoked := invoked ?t @ [StartupEvent]\<rparr>)
               \<lparr>performed := performed ?t @ [CallInitDb],
                records := records ?t @ startup_records w\<rparr>)"
    by (simp add: invoke_def assign_def)
  then show ?thesis
    unfolding start_after_import [OF assms(1)] lifespan_startup_ready assms(2) option.case
    by (simp add: ready_def)
qed

lemma start_quiet_BaseException:
  assumes "quiet w" and "first_error (router_on_startup w) = None"
    and "raises w CallInitDb = Some e" and "\<not> is_Exception e"
  shows "fst (start w) = StartupFailed e"
proof -
  let ?t = "(ready w)\<lparr>invoked := map RouterHandler (router_on_startup w)\<rparr>"
  have "init_db ?t" by (simp add: ready_def)
  then have "fst (invoke w StartupEvent ?t) = Some e"
    using assms(3,4) by (simp add: invoke_def startup_event_def stmt_defs)
  then show ?thesis
    unfolding start_after_import [OF assms(1)] lifespan_startup_ready assms(2) option.case
    by (cases "invoke w StartupEvent ?t") simp
qed

lemma start_quiet_router_startup_raises:
  assumes "quiet w" and "first_error (router_on_startup w) = Some e"
  shows "start w =
    (StartupFailed e,
     (ready w)\<lparr>invoked := map RouterHandler (attempted (router_on_startup w))\<rparr>)"
  unfolding start_after_import [OF assms(1)] lifespan_startup_ready assms(2) option.case
  by simp

subsection \<open>An operation of the module body that raises\<close>

lemma configure_logging_raises:
  "raises w BasicConfig \<noteq> None \<Longrightarrow> fst (configure_logging w s) \<noteq> None"
  by (auto simp: configure_logging_def stmt_defs)

lemma load_settings_raises:
  "raises w ImportSettings \<noteq> None \<Longrightarrow> fst (load_settings w s) \<noteq> None"
  by (auto simp: load_settings_def stmt_defs)

lemma create_app_raises:
  "raises w CreateApp \<noteq> None \<Longrightarrow> fst (create_app w s) \<noteq> None"
  by (auto simp: create_app_def stmt_defs split: option.splits)

lemma add_cors_raises:
  "raises w AddMiddleware \<noteq> None \<Longrightarrow> fst (add_cors w s) \<noteq> None"
  by (auto simp: add_cors_def stmt_defs split: option.splits)

lemma app_get_raises:
  "raises w (RegisterRoute p) \<noteq> None \<Longrightarrow> fst (app_get w p f s) \<noteq> None"
  by (auto simp: app_get_def stmt_defs split: option.splits)

lemma import_init_db_raises:
  "raises w ImportInitDb \<noteq> None \<Longrightarrow> fst (import_init_db w s) \<noteq> None"
  by (auto simp: import_init_db_def stmt_defs)

lemma import_api_router_raises:
  "raises w ImportApiRouter \<noteq> None \<Longrightarrow> fst (import_api_router w s) \<noteq> None"
  by (auto simp: import_api_router_def stmt_defs)

lemma include_router_raises:
  "raises w IncludeRouter \<noteq> None \<Longrightarrow> fst (include_router w s) \<noteq> None"
  by (auto simp: include_router_def stmt_defs split: option.splits)

lemma setLevel_raises:
  "raises w (SetLevel n) \<noteq> None \<Longrightarrow> fst (setLevel w n l s) \<noteq> None"
  by (auto simp: setLevel_def stmt_defs)

lemma set_specific_loggers_raises:
  assumes "n \<in> {''app.services.chat_service'', ''app.agents'', ''autogen''}"
    and "raises w (SetLevel n) \<noteq> None"
  shows "fst (set_specific_loggers w s) \<noteq> None"
proof -
  obtain l where "setLevel w n l \<in> set
     [setLevel w ''app.services.chat_service'' DEBUG_level,
      setLevel w ''app.agents'' DEBUG_level,
      setLevel w ''autogen'' INFO_level]"
    using assms(1) by auto
  then show ?thesis
    unfolding set_specific_loggers_def
    using setLevel_raises [OF assms(2)] by (rule block_always_raises)
qed

lemma on_event_raises:
  "raises w (OnEvent n) \<noteq> None \<Longrightarrow> fst (on_event w n h s) \<noteq> None"
  by (auto simp: on_event_def stmt_defs split: option.splits)

lemma member_aborts:
  assumes "c \<in> set (map snd (main_module w))" and "\<And>s. fst (c s) \<noteq> None"
  shows "fst (import_main w) \<noteq> None"
  unfolding import_main_def using assms by (rule block_always_raises)

lemma module_op_aborts:
  assumes "x \<in> set module_ops" and "raises w x \<noteq> None"
  shows "fst (import_main w) \<noteq> None"
proof -
  consider "x = BasicConfig" | "x = ImportSettings" | "x = CreateApp" | "x = AddMiddleware"
    | "x = RegisterRoute ''/''" | "x = RegisterRoute ''/health''" | "x = ImportInitDb"
    | "x = ImportApiRouter" | "x = IncludeRouter"
    | n where "x = SetLevel n" "n \<in> {''app.services.chat_service'', ''app.agents'', ''autogen''}"
    | "x = OnEvent ''startup''" | "x = OnEvent ''shutdown''"
    using assms(1) unfolding module_ops_def by auto
  then show ?thesis
  proof cases
    case 1
    show ?thesis
      by (rule member_aborts [of "configure_logging w"])
         (simp add: main_module_def, rule configure_logging_raises, use assms(2) 1 in simp)
  next
    case 2
    show ?thesis
      by (rule member_aborts [of "load_settings w"])
         (simp add: main_module_def, rule load_settings_raises, use assms(2) 2 in simp)
  next
    case 3
    show ?thesis
      by (rule member_aborts [of "create_app w"])
         (simp add: main_module_def, rule create_app_raises, use assms(2) 3 in simp)
  next
    case 4
    show ?thesis
      by (rule member_aborts [of "add_cors w"])
         (simp add: main_module_def, rule add_cors_raises, use assms(2) 4 in simp)
  next
    case 5
    show ?thesis
      by (rule member_aborts [of "app_get w ''/'' Root"])
         (simp add: main_module_def, rule app_get_raises, use assms(2) 5 in simp)
  next
    case 6
    show ?thesis
      by (rule member_aborts [of "app_get w ''/health'' HealthCheck"])
         (simp add: main_module_def, rule app_get_raises, use assms(2) 6 in simp)
  next
    case 7
    show ?thesis
      by (rule member_aborts [of "import_init_db w"])
         (simp add: main_module_def, rule import_init_db_raises, use assms(2) 7 in simp)
  next
    case 8
    show ?thesis
      by (rule member_aborts [of "import_api_router w"])
         (simp add: main_module_def, rule import_api_router_raises, use assms(2) 8 in simp)
  next
    case 9
    show ?thesis
      by (rule member_aborts [of "include_router w"])
         (simp add: main_module_def, rule include_router_raises, use assms(2) 9 in simp)
  next
    case 10
    show ?thesis
      by (rule member_aborts [of "set_specific_loggers w"])
         (simp add: main_module_def, rule set_specific_loggers_raises [of n],
          use assms(2) 10 in simp_all)
  next
    case 11
    show ?thesis
      by (rule member_aborts [of "on_event w ''startup'' StartupEvent"])
         (simp add: main_module_def, rule on_event_raises, use assms(2) 11 in simp)
  next
    case 12
    show ?thesis
      by (rule member_aborts [of "on_event w ''shutdown'' ShutdownEvent"])
         (simp add: main_module_def, rule on_event_raises, use assms(2) 12 in simp)
  qed
qed

lemma import_main_None_iff: "fst (import_main w) = None \<longleftrightarrow> quiet w"
proof
  assume "fst (import_main w) = None"
  then have "\<forall>x \<in> set module_ops. raises w x = None"
    using module_op_aborts by blast
  then show "quiet w" by (simp add: quiet_def list_all_iff)
next
  assume "quiet w"
  then show "fst (import_main w) = None" by (simp add: import_main_quiet)
qed

lemma not_quiet_not_serving: "\<not> quiet w \<Longrightarrow> \<exists>e. fst (start w) = ImportFailed e"
proof -
  assume "\<not> quiet w"
  then have "fst (import_main w) \<noteq> None" by (simp add: import_main_None_iff)
  then obtain e s where "import_main w = (Some e, s)" by (cases "import_main w") auto
  then show ?thesis by (simp add: start_def)
qed

lemma serving_iff:
  "fst (start w) = Serving \<longleftrightarrow>
     quiet w \<and> first_error (router_on_startup w) = None
     \<and> init_db_returns_or_raises_Exception w"
proof
  assume srv: "fst (start w) = Serving"
  have q: "quiet w"
  proof (rule ccontr)
    assume "\<not> quiet w"
    then obtain e where "fst (start w) = ImportFailed e" using not_quiet_not_serving by blast
    then show False using srv by simp
  qed
  have r: "first_error (router_on_startup w) = None"
  proof (cases "first_error (router_on_startup w)")
    case None
    then show ?thesis .
  next
    case (Some e)
    then have "fst (start w) = StartupFailed e"
      using start_quiet_router_startup_raises [OF q] by simp
    then show ?thesis using srv by simp
  qed
  have "init_db_returns_or_raises_Exception w"
  proof (cases "raises w CallInitDb")
    case None
    then show ?thesis by (simp add: init_db_returns_or_raises_Exception_def)
  next
    case (Some e)
    show ?thesis
    proof (cases "is_Exception e")
      case True
      then show ?thesis using Some by (simp add: init_db_returns_or_raises_Exception_def)
    next
      case False
      then have "fst (start w) = StartupFailed e"
        using start_quiet_BaseException [OF q r Some] by simp
      then show ?thesis using srv by simp
    qed
  qed
  then show "quiet w \<and> first_error (router_on_startup w) = None
     \<and> init_db_returns_or_raises_Exception w" using q r by simp
next
  assume "quiet w \<and> first_error (router_on_startup w) = None
     \<and> init_db_returns_or_raises_Exception w"
  then show "fst (start w) = Serving" by (simp add: start_quiet)
qed

lemma not_serving_no_answer: "fst (start w) \<noteq> Serving \<Longrightarrow> serve w m p = None"
  by (cases "start w") (auto simp: serve_def split: phase.splits)

lemma quiet_failing:
  "x \<notin> set module_ops \<Longrightarrow> quiet (failing x)"
  by (auto simp add: quiet_def failing_def calm_def list_all_iff)

lemma quiet_calm: "quiet calm"
  by (simp add: quiet_def calm_def module_ops_def)

lemma serving_calm: "fst (start calm) = Serving"
proof -
  have "init_db_returns_or_raises_Exception calm" and "first_error (router_on_startup calm) = None"
    by (simp_all add: init_db_returns_or_raises_Exception_def calm_def)
  then show ?thesis using quiet_calm by (simp add: serving_iff)
qed

lemma serving_failing:
  assumes "x \<notin> set module_ops"
  shows "fst (start (failing x)) = Serving"
proof -
  have "init_db_returns_or_raises_Exception (failing x)"
    and "first_error (router_on_startup (failing x)) = None"
    by (simp_all add: init_db_returns_or_raises_Exception_def failing_def calm_def boom_def)
  then show ?thesis using quiet_failing [OF assms] by (simp add: serving_iff)
qed

lemma handle_request_health:
  assumes "app s = Some (built_app w)"
  shows "handle_request s ''GET'' ''/health'' = \<lparr>status_code = 200, json_body = health_check\<rparr>"
  using assms by (simp add: handle_request_def built_app_def call_endpoint_def)

lemma handle_request_root:
  assumes "app s = Some (built_app w)" and "settings s = Some cfg"
  shows "handle_request s ''GET'' ''/'' = \<lparr>status_code = 200, json_body = root cfg\<rparr>"
  using assms by (simp add: handle_request_def built_app_def call_endpoint_def)

text \<open>
  C1. The database initialisation of the startup handler raises an exception of class
  Exception. The handler calls init_db, catches the exception, logs the message and the
  traceback and returns. Whether the process serves is then the same as if init_db had
  returned. Whatever the configuration (working directory, PORT, settings, routes of the
  router), when the module body has run and the startup handlers of the router have
  returned, the process serves: the startup handler has been invoked once, init_db has
  been called, the two error records are the last of the log, and GET /health is
  answered with status 200 and body {"status": "healthy"}.
\<close>

theorem health_served_when_init_db_raises:
  assumes "raises w CallInitDb = Some e" and "is_Exception e"
  shows "(fst (start w) = Serving \<longleftrightarrow>
            fst (start (w\<lparr>raises := (raises w)(CallInitDb := None)\<rparr>)) = Serving)
       \<and> (init_db s \<longrightarrow>
            startup_event w s =
              (None, s\<lparr>performed := performed s @ [CallInitDb],
                       records := records s @
                         [(INFO_level, package @ '' Initializing database...''),
                          (ERROR_level, cross_mark @ '' Failed to initialize database: '' @ message e),
                          (ERROR_level, format_exc e)]\<rparr>))
       \<and> (quiet w \<and> first_error (router_on_startup w) = None \<longrightarrow>
            fst (start w) = Serving
          \<and> count_list (invoked (snd (start w))) StartupEvent = 1
          \<and> performed (snd (start w)) = module_ops @ [CallInitDb]
          \<and> records (snd (start w)) = records (ready w) @
               [(INFO_level, package @ '' Initializing database...''),
                (ERROR_level, cross_mark @ '' Failed to initialize database: '' @ message e),
                (ERROR_level, format_exc e)]
          \<and> serve w ''GET'' ''/health'' =
               Some \<lparr>status_code = 200, json_body = Dict [(''status'', Str ''healthy'')]\<rparr>)"
proof -
  let ?w = "w\<lparr>raises := (raises w)(CallInitDb := None)\<rparr>"
  have ok: "init_db_returns_or_raises_Exception w"
    using assms by (simp add: init_db_returns_or_raises_Exception_def)
  have ok': "init_db_returns_or_raises_Exception ?w"
    by (simp add: init_db_returns_or_raises_Exception_def)
  have q: "quiet ?w = quiet w"
    by (simp add: quiet_def module_ops_def)
  have same: "fst (start w) = Serving \<longleftrightarrow> fst (start ?w) = Serving"
    using ok ok' q by (simp add: serving_iff)
  have recs: "startup_records w =
      [(INFO_level, package @ '' Initializing database...''),
       (ERROR_level, cross_mark @ '' Failed to initialize database: '' @ message e),
       (ERROR_level, format_exc e)]"
    using assms(1) by (simp add: startup_records_def)
  have caught: "startup_event w s =
              (None, s\<lparr>performed := performed s @ [CallInitDb],
                       records := records s @
                         [(INFO_level, package @ '' Initializing database...''),
                          (ERROR_level, cross_mark @ '' Failed to initialize database: '' @ message e),
                          (ERROR_level, format_exc e)]\<rparr>)" if "init_db s"
    using startup_event_result [OF that ok] recs by simp
  have served: "fst (start w) = Serving
          \<and> count_list (invoked (snd (start w))) StartupEvent = 1
          \<and> performed (snd (start w)) = module_ops @ [CallInitDb]
          \<and> records (snd (start w)) = records (ready w) @
               [(INFO_level, package @ '' Initializing database...''),
                (ERROR_level, cross_mark @ '' Failed to initialize database: '' @ message e),
                (ERROR_level, format_exc e)]
          \<and> serve w ''GET'' ''/health'' =
               Some \<lparr>status_code = 200, json_body = Dict [(''status'', Str ''healthy'')]\<rparr>"
    if "quiet w" and "first_error (router_on_startup w) = None"
  proof -
    note st = start_quiet [OF that ok]
    have "serve w ''GET'' ''/health'' = Some \<lparr>status_code = 200, json_body = health_check\<rparr>"
      unfolding serve_def st
      by (simp add: handle_request_health [of _ w] ready_def)
    then show ?thesis
      using st recs by (simp add: health_check_def)
  qed
  show ?thesis
    using same caught served by blast
qed

theorem health_served_when_init_db_raises_witness:
  "raises (failing CallInitDb) CallInitDb = Some boom
   \<and> is_Exception boom
   \<and> quiet (failing CallInitDb)
   \<and> first_error (router_on_startup (failing CallInitDb)) = None
   \<and> init_db (ready (failing CallInitDb))
   \<and> fst (startup_event (failing CallInitDb) (ready (failing CallInitDb))) = None
   \<and> fst (start (failing CallInitDb)) = Serving
   \<and> performed (snd (start (failing CallInitDb))) = module_ops @ [CallInitDb]
   \<and> records (snd (start (failing CallInitDb))) = records (ready (failing CallInitDb)) @
        [(INFO_level, package @ '' Initializing database...''),
         (ERROR_level, cross_mark @ '' Failed to initialize database: boom''),
         (ERROR_level, ''Traceback (most recent call last): RuntimeError: boom'')]
   \<and> serve (failing CallInitDb) ''GET'' ''/health'' =
       Some \<lparr>status_code = 200, json_body = Dict [(''status'', Str ''healthy'')]\<rparr>"
proof -
  have q: "quiet (failing CallInitDb)"
    by (rule quiet_failing) (simp add: module_ops_def)
  have r: "raises (failing CallInitDb) CallInitDb = Some boom"
    by (simp add: failing_def)
  have b: "is_Exception boom" "message boom = ''boom''"
    "format_exc boom = ''Traceback (most recent call last): RuntimeError: boom''"
    by (simp_all add: boom_def)
  have h: "first_error (router_on_startup (failing CallInitDb)) = None"
    by (simp add: failing_def calm_def)
  have i: "init_db (ready (failing CallInitDb))"
    by (simp add: ready_def)
  show ?thesis
    using health_served_when_init_db_raises
            [OF r b(1), where s = "ready (failing CallInitDb)"] q r b h i
    by simp
qed

text \<open>
  C7. In a serving process GET / is answered with status 200 and a JSON object whose
  message is "Welcome to ArtReal API", whose version is the APP_VERSION of the settings
  and whose docs is "/docs".
\<close>

theorem root_response:
  assumes "fst (start w) = Serving"
  shows "serve w ''GET'' ''/'' =
           Some \<lparr>status_code = 200,
                 json_body = Dict [(''message'', Str ''Welcome to ArtReal API''),
                                   (''version'', Str (APP_VERSION (config_settings w))),
                                   (''docs'', Str ''/docs'')]\<rparr>"
proof -
  have q: "quiet w" and r: "first_error (router_on_startup w) = None"
    and ok: "init_db_returns_or_raises_Exception w"
    using assms by (simp_all add: serving_iff)
  show ?thesis
    unfolding serve_def start_quiet [OF q r ok]
    by (simp add: handle_request_root [of _ w "config_settings w"] ready_def root_def)
qed

theorem root_response_witness:
  "fst (start calm) = Serving
   \<and> serve calm ''GET'' ''/'' =
       Some \<lparr>status_code = 200,
             json_body = Dict [(''message'', Str ''Welcome to ArtReal API''),
                               (''version'', Str ''1.0.0''),
                               (''docs'', Str ''/docs'')]\<rparr>"
proof -
  have srv: "fst (start calm) = Serving"
    by (rule serving_calm)
  show ?thesis
    using root_response [OF srv] srv by (simp add: calm_def)
qed

text \<open>
  C9. The value of PORT only appears in a log record. Replacing it changes no statement
  of the module body after the logging banner; when the module body runs without an
  exception the entry point calls the server with host 0.0.0.0 and port 8000, whatever
  PORT is, and when it does not the entry point is never reached.
\<close>

theorem port_env_only_logged:
  "map snd (tl (main_module (w\<lparr>environ_PORT := p\<rparr>))) = map snd (tl (main_module w))
   \<and> (quiet w \<longrightarrow>
        run_as_main (w\<lparr>environ_PORT := p\<rparr>) =
          Inr \<lparr>target = ''app.main:app'', host = ''0.0.0.0'', port = 8000,
               reload = DEBUG (config_settings w)\<rparr>
        \<and> records (snd (import_main (w\<lparr>environ_PORT := p\<rparr>))) ! 2 =
            (INFO_level, pin @ '' PORT env: '' @ (case p of None \<Rightarrow> ''not set'' | Some v \<Rightarrow> v)))
   \<and> (\<not> quiet w \<longrightarrow> (\<exists>e. run_as_main (w\<lparr>environ_PORT := p\<rparr>) = Inl e))"
proof -
  let ?w = "w\<lparr>environ_PORT := p\<rparr>"
  have perf: "perform ?w = perform w"
    by (intro ext) (simp add: perform_def)
  have same: "map snd (tl (main_module ?w)) = map snd (tl (main_module w))"
    by (simp add: main_module_def module_defs perf the_api_router_def)
  have q: "quiet ?w = quiet w"
    by (simp add: quiet_def)
  have run: "run_as_main ?w = Inr \<lparr>target = ''app.main:app'', host = ''0.0.0.0'', port = 8000,
               reload = DEBUG (config_settings w)\<rparr>"
    and rec: "records (snd (import_main ?w)) ! 2 =
            (INFO_level, pin @ '' PORT env: '' @ (case p of None \<Rightarrow> ''not set'' | Some v \<Rightarrow> v))"
    if "quiet w"
  proof -
    have im: "import_main ?w = (None, ready ?w)"
      using that q by (simp add: import_main_quiet)
    then show "run_as_main ?w = Inr \<lparr>target = ''app.main:app'', host = ''0.0.0.0'', port = 8000,
               reload = DEBUG (config_settings w)\<rparr>"
      by (simp add: run_as_main_def uvicorn_run_call_def ready_def)
    show "records (snd (import_main ?w)) ! 2 =
            (INFO_level, pin @ '' PORT env: '' @ (case p of None \<Rightarrow> ''not set'' | Some v \<Rightarrow> v))"
      by (simp add: im ready_def)
  qed
  have abort: "\<exists>e. run_as_main ?w = Inl e" if "\<not> quiet w"
  proof -
    have "fst (import_main ?w) \<noteq> None"
      using that q by (simp add: import_main_None_iff)
    then obtain e s where "import_main ?w = (Some e, s)"
      by (cases "import_main ?w") auto
    then show ?thesis by (simp add: run_as_main_def)
  qed
  show ?thesis using same run rec abort by blast
qed

theorem port_env_only_logged_witness:
  "quiet calm
   \<and> run_as_main (calm\<lparr>environ_PORT := Some ''9999''\<rparr>) =
       Inr \<lparr>target = ''app.main:app'', host = ''0.0.0.0'', port = 8000, reload = False\<rparr>
   \<and> records (snd (import_main (calm\<lparr>environ_PORT := Some ''9999''\<rparr>))) ! 2 =
       (INFO_level, pin @ '' PORT env: 9999'')
   \<and> \<not> quiet (failing ImportSettings)
   \<and> (\<exists>e. run_as_main ((failing ImportSettings)\<lparr>environ_PORT := Some ''9999''\<rparr>) = Inl e)"
proof -
  have nq: "\<not> quiet (failing ImportSettings)"
    by (simp add: quiet_def failing_def module_ops_def)
  have cfg: "DEBUG (config_settings calm) = False"
    by (simp add: calm_def)
  show ?thesis
    using port_env_only_logged [where w = calm and p = "Some ''9999''"]
      port_env_only_logged [where w = "failing ImportSettings" and p = "Some ''9999''"] quiet_calm nq cfg
    by simp
qed

text \<open>
  C2. When the settings import, the database-module import or the router import raises,
  the module body does not complete, so the process does not serve and answers no
  request. When the exception is of class Exception and the operations before the import
  have returned, the handler logs the failure text with the message, then the traceback,
  and the very same exception leaves the module.
\<close>

theorem fatal_import_aborts:
  assumes "x \<in> {ImportSettings, ImportInitDb, ImportApiRouter}" and "raises w x = Some e"
  shows "fst (start w) \<noteq> Serving
       \<and> serve w m p = None
       \<and> (is_Exception e \<and> list_all (\<lambda>y. raises w y = None) (before x) \<longrightarrow>
            fst (import_main w) = Some e
          \<and> drop (length (records (snd (import_main w))) - 2) (records (snd (import_main w))) =
              [(ERROR_level, cross_mark @ failure_text x @ message e),
               (ERROR_level, format_exc e)])"
proof -
  have mem: "x \<in> set module_ops"
    using assms(1) by (auto simp: module_ops_def)
  have "fst (import_main w) \<noteq> None"
    using module_op_aborts [OF mem] assms(2) by simp
  then have "\<not> quiet w"
    by (simp add: import_main_None_iff)
  then have ns: "fst (start w) \<noteq> Serving"
    by (simp add: serving_iff)
  have logged: "fst (import_main w) = Some e
          \<and> drop (length (records (snd (import_main w))) - 2) (records (snd (import_main w))) =
              [(ERROR_level, cross_mark @ failure_text x @ message e),
               (ERROR_level, format_exc e)]"
    if "is_Exception e" and "list_all (\<lambda>y. raises w y = None) (before x)"
  proof -
    consider "x = ImportSettings" | "x = ImportInitDb" | "x = ImportApiRouter"
      using assms(1) by auto
    then show ?thesis
    proof cases
      case 1
      then show ?thesis
        using that assms(2)
        by (simp add: before_def module_ops_def import_main_def main_module_def initial_def
            stmt_defs module_defs)
    next
      case 2
      then show ?thesis
        using that assms(2)
        by (simp add: before_def module_ops_def import_main_def main_module_def initial_def
            stmt_defs module_defs)
    next
      case 3
      then show ?thesis
        using that assms(2)
        by (simp add: before_def module_ops_def import_main_def main_module_def initial_def
            stmt_defs module_defs)
    qed
  qed
  show ?thesis
    using ns not_serving_no_answer [OF ns] logged by blast
qed

theorem fatal_import_aborts_witness:
  "raises (failing ImportApiRouter) ImportApiRouter = Some boom
   \<and> is_Exception boom
   \<and> list_all (\<lambda>y. raises (failing ImportApiRouter) y = None) (before ImportApiRouter)
   \<and> fst (start (failing ImportApiRouter)) \<noteq> Serving
   \<and> serve (failing ImportApiRouter) ''GET'' ''/health'' = None
   \<and> fst (import_main (failing ImportApiRouter)) = Some boom
   \<and> drop (length (records (snd (import_main (failing ImportApiRouter)))) - 2)
        (records (snd (import_main (failing ImportApiRouter)))) =
       [(ERROR_level, cross_mark @ '' Failed to import API router: boom''),
        (ERROR_level, ''Traceback (most recent call last): RuntimeError: boom'')]"
proof -
  have r: "raises (failing ImportApiRouter) ImportApiRouter = Some boom"
    by (simp add: failing_def)
  have b: "is_Exception boom"
    by (simp add: boom_def)
  have q: "list_all (\<lambda>y. raises (failing ImportApiRouter) y = None) (before ImportApiRouter)"
    by (simp add: before_def module_ops_def failing_def)
  have x: "ImportApiRouter \<in> {ImportSettings, ImportInitDb, ImportApiRouter}"
    by simp
  show ?thesis
    using fatal_import_aborts [OF x r, of "''GET''" "''/health''"] r b q
    by (simp add: boom_def)
qed

text \<open>
  C4, as the specification states it, at a concrete world: the level of the logger
  "autogen" cannot be set. The exception is not skipped: it leaves the module, the import
  of the module fails and no request is answered.
\<close>

theorem verbosity_error_not_skipped:
  "raises (failing (SetLevel ''autogen'')) (SetLevel ''autogen'') = Some boom
   \<and> fst (start (failing (SetLevel ''autogen''))) = ImportFailed boom
   \<and> serve (failing (SetLevel ''autogen'')) ''GET'' ''/health'' = None"
proof -
  have "import_main (failing (SetLevel ''autogen'')) =
          (Some boom, snd (import_main (failing (SetLevel ''autogen''))))
        \<and> fst (import_main (failing (SetLevel ''autogen''))) = Some boom"
    by (simp add: failing_def calm_def import_main_def main_module_def initial_def
        stmt_defs module_defs)
  then have st: "fst (start (failing (SetLevel ''autogen''))) = ImportFailed boom"
    by (cases "import_main (failing (SetLevel ''autogen''))") (simp add: start_def)
  then have "serve (failing (SetLevel ''autogen'')) ''GET'' ''/health'' = None"
    by (simp add: not_serving_no_answer)
  then show ?thesis using st by (simp add: failing_def)
qed

text \<open>
  C4, amended. The three calls that set logger levels have no handler around them. When
  none of them raises the statement completes; when one of them raises, an exception
  leaves the statement with nothing logged, the module body does not complete, and the
  process does not serve.
\<close>

theorem verbosity_error_propagates:
  "(raises w (SetLevel ''app.services.chat_service'') = None
      \<and> raises w (SetLevel ''app.agents'') = None
      \<and> raises w (SetLevel ''autogen'') = None
      \<longrightarrow> fst (set_specific_loggers w s) = None)
   \<and> (n \<in> {''app.services.chat_service'', ''app.agents'', ''autogen''}
      \<and> raises w (SetLevel n) = Some e
      \<longrightarrow> fst (set_specific_loggers w s) \<noteq> None
        \<and> records (snd (set_specific_loggers w s)) = records s
        \<and> fst (start w) \<noteq> Serving
        \<and> serve w m p = None)"
proof -
  have ok: "fst (set_specific_loggers w s) = None"
    if "raises w (SetLevel ''app.services.chat_service'') = None"
      and "raises w (SetLevel ''app.agents'') = None"
      and "raises w (SetLevel ''autogen'') = None"
    using that by (simp add: set_specific_loggers_def setLevel_def stmt_defs)
  have recs: "records (snd (set_specific_loggers w s)) = records s"
    by (simp add: set_specific_loggers_def setLevel_def stmt_defs split: option.splits)
  have bad: "fst (set_specific_loggers w s) \<noteq> None \<and> fst (start w) \<noteq> Serving
             \<and> serve w m p = None"
    if n: "n \<in> {''app.services.chat_service'', ''app.agents'', ''autogen''}"
      and r: "raises w (SetLevel n) = Some e"
  proof -
    have r': "raises w (SetLevel n) \<noteq> None" using r by simp
    have mem: "SetLevel n \<in> set module_ops"
      using n by (auto simp: module_ops_def)
    have "fst (import_main w) \<noteq> None"
      using module_op_aborts [OF mem r'] .
    then have "\<not> quiet w" by (simp add: import_main_None_iff)
    then have ns: "fst (start w) \<noteq> Serving" by (simp add: serving_iff)
    show ?thesis
      using set_specific_loggers_raises [OF n r'] ns not_serving_no_answer [OF ns] by simp
  qed
  show ?thesis using ok recs bad by blast
qed

theorem verbosity_error_propagates_witness:
  "raises calm (SetLevel ''app.services.chat_service'') = None
   \<and> raises calm (SetLevel ''app.agents'') = None
   \<and> raises calm (SetLevel ''autogen'') = None
   \<and> fst (set_specific_loggers calm initial) = None
   \<and> ''app.agents'' \<in> {''app.services.chat_service'', ''app.agents'', ''autogen''}
   \<and> raises (failing (SetLevel ''app.agents'')) (SetLevel ''app.agents'') = Some boom
   \<and> fst (set_specific_loggers (failing (SetLevel ''app.agents'')) initial) \<noteq> None
   \<and> records (snd (set_specific_loggers (failing (SetLevel ''app.agents'')) initial)) =
       records initial
   \<and> fst (start (failing (SetLevel ''app.agents''))) \<noteq> Serving
   \<and> serve (failing (SetLevel ''app.agents'')) ''GET'' ''/health'' = None"
proof -
  have c: "raises calm (SetLevel ''app.services.chat_service'') = None
           \<and> raises calm (SetLevel ''app.agents'') = None
           \<and> raises calm (SetLevel ''autogen'') = None"
    by (simp add: calm_def)
  have r: "raises (failing (SetLevel ''app.agents'')) (SetLevel ''app.agents'') = Some boom"
    by (simp add: failing_def)
  show ?thesis
    using verbosity_error_propagates
            [where w = calm and s = initial and n = "''app.agents''" and e = boom
               and m = "''GET''" and p = "''/health''"]
      verbosity_error_propagates
            [where w = "failing (SetLevel ''app.agents'')" and s = initial
               and n = "''app.agents''" and e = boom and m = "''GET''" and p = "''/health''"]
      c r
    by simp
qed

text \<open>
  C5, at a concrete run of the shutdown handler: the call of shutdown_orchestrators raises
  an exception whose traceback text is known. The handler emits one record, the message,
  and no record holds the traceback; the startup handler, given the same exception from
  init_db, emits the message and the traceback.
\<close>

theorem shutdown_logs_no_traceback:
  "shutdown_event (failing CallShutdownOrchestrators) initial =
     (None, initial\<lparr>records := [(ERROR_level, cross_mark @ '' Error during shutdown: boom'')],
                    performed := [ImportShutdownOrchestrators, CallShutdownOrchestrators]\<rparr>)
   \<and> (ERROR_level, format_exc boom)
        \<notin> set (records (snd (shutdown_event (failing CallShutdownOrchestrators) initial)))
   \<and> records (snd (startup_event (failing CallInitDb) (initial\<lparr>init_db := True\<rparr>))) =
       [(INFO_level, package @ '' Initializing database...''),
        (ERROR_level, cross_mark @ '' Failed to initialize database: boom''),
        (ERROR_level, format_exc boom)]"
  by (simp add: shutdown_event_def startup_event_def failing_def calm_def boom_def
      initial_def stmt_defs cross_mark_def)

subsection \<open>Process shutdown\<close>

lemma lifespan_shutdown_built:
  assumes "app t = Some (built_app w)"
  shows "lifespan_shutdown w t =
     (case first_error (router_on_shutdown w) of
        None \<Rightarrow> invoke w ShutdownEvent
                 (t\<lparr>invoked := invoked t @ map RouterHandler (router_on_shutdown w)\<rparr>)
      | Some e \<Rightarrow> (Some e, t\<lparr>invoked := invoked t @
                                map RouterHandler (attempted (router_on_shutdown w))\<rparr>))"
proof -
  have o: "on_shutdown (built_app w) = map RouterHandler (router_on_shutdown w) @ [ShutdownEvent]"
    by (simp add: built_app_def)
  show ?thesis
    unfolding lifespan_shutdown_def with_app_def assms option.case o run_router_handlers
    by (simp add: block_single del: block.simps split: option.splits)
qed

lemma invoke_shutdown_result:
  assumes "shutdown_returns_or_raises_Exception w"
  shows "invoke w ShutdownEvent t =
    (None, t\<lparr>invoked := invoked t @ [ShutdownEvent],
             performed := performed t @
               (if raises w ImportShutdownOrchestrators = None
                then [ImportShutdownOrchestrators, CallShutdownOrchestrators]
                else [ImportShutdownOrchestrators]),
             records := records t @
               (case shutdown_error w of
                  None \<Rightarrow> []
                | Some e \<Rightarrow> [(ERROR_level, cross_mark @ '' Error during shutdown: '' @ message e)])\<rparr>)"
  using shutdown_event_result [OF assms, of "t\<lparr>invoked := invoked t @ [ShutdownEvent]\<rparr>"]
  by (simp add: invoke_def assign_def)

lemma serving_state:
  assumes "fst (start w) = Serving"
  shows "app (snd (start w)) = Some (built_app w)"
    and "settings (snd (start w)) = Some (config_settings w)"
    and "invoked (snd (start w)) = map RouterHandler (router_on_startup w) @ [StartupEvent]"
    and "start w = (Serving, snd (start w))"
proof -
  have q: "quiet w" and r: "first_error (router_on_startup w) = None"
    and ok: "init_db_returns_or_raises_Exception w"
    using assms by (simp_all add: serving_iff)
  note st = start_quiet [OF q r ok]
  show "app (snd (start w)) = Some (built_app w)"
    and "settings (snd (start w)) = Some (config_settings w)"
    and "invoked (snd (start w)) = map RouterHandler (router_on_startup w) @ [StartupEvent]"
    by (simp_all add: st ready_def)
  show "start w = (Serving, snd (start w))"
    using assms by (cases "start w") simp
qed

lemma stop_serving:
  assumes "fst (start w) = Serving"
  shows "stop w = Some (lifespan_shutdown w (snd (start w)))"
proof -
  obtain s where "start w = (Serving, s)"
    using serving_state(4) [OF assms] by blast
  then show ?thesis by (simp add: stop_def)
qed

lemma stop_result:
  assumes "fst (start w) = Serving" and "shutdown_returns_or_raises_Exception w"
  shows "\<exists>s'. stop w = Some (first_error (router_on_shutdown w), s')
           \<and> count_list (invoked s') ShutdownEvent =
               (if first_error (router_on_shutdown w) = None then 1 else 0)
           \<and> (first_error (router_on_shutdown w) = None \<longrightarrow>
                records s' = records (snd (start w)) @
                  (case shutdown_error w of
                     None \<Rightarrow> []
                   | Some e \<Rightarrow> [(ERROR_level, cross_mark @ '' Error during shutdown: '' @ message e)]))"
proof (cases "first_error (router_on_shutdown w)")
  case None
  show ?thesis
    unfolding stop_serving [OF assms(1)]
      lifespan_shutdown_built [OF serving_state(1) [OF assms(1)]] None option.case
      invoke_shutdown_result [OF assms(2)]
    by (simp add: serving_state(3) [OF assms(1)])
next
  case (Some e)
  show ?thesis
    unfolding stop_serving [OF assms(1)]
      lifespan_shutdown_built [OF serving_state(1) [OF assms(1)]] Some option.case
    by (simp add: serving_state(3) [OF assms(1)])
qed

text \<open>
  C6, as the specification states it, at a world in which nothing of the module raises
  and the router has one shutdown handler, which raises. The process serves; its
  shutdown transition ends with the exception of the router's handler, and the shutdown
  handler of the module has not been invoked.
\<close>

theorem shutdown_hook_not_invoked:
  "fst (start router_shutdown_fails) = Serving
   \<and> stop router_shutdown_fails \<noteq> None
   \<and> fst (the (stop router_shutdown_fails)) = Some boom
   \<and> count_list (invoked (snd (the (stop router_shutdown_fails)))) ShutdownEvent = 0"
proof -
  have q: "quiet router_shutdown_fails"
    by (simp add: quiet_def router_shutdown_fails_def calm_def module_ops_def)
  have "init_db_returns_or_raises_Exception router_shutdown_fails"
    and "first_error (router_on_startup router_shutdown_fails) = None"
    by (simp_all add: init_db_returns_or_raises_Exception_def router_shutdown_fails_def calm_def)
  then have srv: "fst (start router_shutdown_fails) = Serving"
    using q by (simp add: serving_iff)
  have f: "first_error (router_on_shutdown router_shutdown_fails) = Some boom"
    by (simp add: router_shutdown_fails_def)
  have i: "invoked (snd (start router_shutdown_fails)) = [StartupEvent]"
    using serving_state(3) [OF srv] by (simp add: router_shutdown_fails_def calm_def)
  show ?thesis
    unfolding stop_serving [OF srv] lifespan_shutdown_built [OF serving_state(1) [OF srv]] f
    using srv i by (simp add: router_shutdown_fails_def)
qed

text \<open>
  C6, amended. The module registers its shutdown handler once, after the shutdown
  handlers of the included router. At the shutdown of a serving process the handler is
  invoked exactly once when the router's shutdown handlers all return, and not at all
  when one of them raises: the transition then ends with that exception. An exception of
  class Exception raised inside the handler (by the import or by the call) is logged in
  one record and does not leave it: the invocation ends without an exception.
\<close>

theorem shutdown_hook_at_most_once_and_contained:
  assumes "fst (start w) = Serving" and "shutdown_returns_or_raises_Exception w"
  shows "on_shutdown (built_app w) = map RouterHandler (router_on_shutdown w) @ [ShutdownEvent]
       \<and> app (snd (start w)) = Some (built_app w)
       \<and> count_list (on_shutdown (built_app w)) ShutdownEvent = 1
       \<and> fst (invoke w ShutdownEvent s) = None
       \<and> records (snd (invoke w ShutdownEvent s)) = records s @
            (case shutdown_error w of
               None \<Rightarrow> []
             | Some e \<Rightarrow> [(ERROR_level, cross_mark @ '' Error during shutdown: '' @ message e)])
       \<and> (\<exists>s'. stop w = Some (first_error (router_on_shutdown w), s')
             \<and> count_list (invoked s') ShutdownEvent =
                 (if first_error (router_on_shutdown w) = None then 1 else 0)
             \<and> (first_error (router_on_shutdown w) = None \<longrightarrow>
                  records s' = records (snd (start w)) @
                    (case shutdown_error w of
                       None \<Rightarrow> []
                     | Some e \<Rightarrow> [(ERROR_level, cross_mark @ '' Error during shutdown: '' @ message e)])))"
proof -
  have b: "on_shutdown (built_app w) = map RouterHandler (router_on_shutdown w) @ [ShutdownEvent]"
    by (simp add: built_app_def)
  have c: "count_list (on_shutdown (built_app w)) ShutdownEvent = 1"
    by (simp add: b)
  have i: "fst (invoke w ShutdownEvent s) = None"
    and r: "records (snd (invoke w ShutdownEvent s)) = records s @
            (case shutdown_error w of
               None \<Rightarrow> []
             | Some e \<Rightarrow> [(ERROR_level, cross_mark @ '' Error during shutdown: '' @ message e)])"
    by (simp_all add: invoke_shutdown_result [OF assms(2)])
  show ?thesis
    using b c i r serving_state(1) [OF assms(1)] stop_result [OF assms] by simp
qed

theorem shutdown_hook_at_most_once_and_contained_witness:
  "fst (start (failing CallShutdownOrchestrators)) = Serving
   \<and> shutdown_returns_or_raises_Exception (failing CallShutdownOrchestrators)
   \<and> shutdown_error (failing CallShutdownOrchestrators) = Some boom
   \<and> first_error (router_on_shutdown (failing CallShutdownOrchestrators)) = None
   \<and> fst (invoke (failing CallShutdownOrchestrators) ShutdownEvent initial) = None
   \<and> (\<exists>s'. stop (failing CallShutdownOrchestrators) = Some (None, s')
         \<and> count_list (invoked s') ShutdownEvent = 1
         \<and> records s' = records (snd (start (failing CallShutdownOrchestrators))) @
             [(ERROR_level, cross_mark @ '' Error during shutdown: boom'')])"
proof -
  have srv: "fst (start (failing CallShutdownOrchestrators)) = Serving"
    by (rule serving_failing) (simp add: module_ops_def)
  have err: "shutdown_error (failing CallShutdownOrchestrators) = Some boom"
    by (simp add: shutdown_error_def failing_def)
  have ok: "shutdown_returns_or_raises_Exception (failing CallShutdownOrchestrators)"
    by (simp add: shutdown_returns_or_raises_Exception_def err boom_def)
  have f: "first_error (router_on_shutdown (failing CallShutdownOrchestrators)) = None"
    by (simp add: failing_def calm_def)
  have m: "message boom = ''boom''"
    by (simp add: boom_def)
  show ?thesis
    using shutdown_hook_at_most_once_and_contained [OF srv ok, of initial] srv ok err f m
    by simp
qed

subsection \<open>The CORS policy\<close>

lemma preflight_response_cors_policy:
  "preflight_response cors_policy q =
     \<lparr>text_status = (if request_method q \<in> set ALL_METHODS then 200 else 400),
      text_content = (if request_method q \<in> set ALL_METHODS then ''OK''
                      else ''Disallowed CORS method''),
      text_headers =
        [(''Access-Control-Allow-Origin'', ''*''),
         (''Access-Control-Allow-Methods'', ''DELETE, GET, HEAD, OPTIONS, PATCH, POST, PUT''),
         (''Access-Control-Max-Age'', ''600'')] @
        (case request_headers q of
           None \<Rightarrow> []
         | Some h \<Rightarrow> [(''Access-Control-Allow-Headers'', h)])\<rparr>"
proof -
  have m: "effective_methods cors_policy = ALL_METHODS"
    by (simp add: effective_methods_def cors_policy_def)
  have j: "join '', '' ALL_METHODS = ''DELETE, GET, HEAD, OPTIONS, PATCH, POST, PUT''"
    by (simp add: ALL_METHODS_def)
  have h: "preflight_headers cors_policy =
        [(''Access-Control-Allow-Origin'', ''*''),
         (''Access-Control-Allow-Methods'', ''DELETE, GET, HEAD, OPTIONS, PATCH, POST, PUT''),
         (''Access-Control-Max-Age'', ''600'')]"
    unfolding preflight_headers_def m j
    by (simp add: preflight_explicit_allow_origin_def allow_all_origins_def
        allow_all_headers_def cors_policy_def)
  have f: "preflight_failures cors_policy q =
        (if request_method q \<in> set ALL_METHODS then [] else [''method''])"
    unfolding preflight_failures_def m
    by (simp add: is_allowed_origin_def allow_all_origins_def allow_all_headers_def
        cors_policy_def split: option.splits)
  show ?thesis
    unfolding preflight_response_def h f
    by (simp add: is_allowed_origin_def preflight_explicit_allow_origin_def
        allow_all_origins_def allow_all_headers_def cors_policy_def Let_def
        split: option.splits)
qed

text \<open>
  C8, as the specification states it, at a preflight of the serving process of the world
  in which nothing raises: the preflight announces the method PROPFIND. It is not
  permitted: the middleware answers 400, "Disallowed CORS method".
\<close>

theorem preflight_method_refused:
  "serve_preflight calm
     \<lparr>request_path = ''/health'', origin = ''https://example.test'',
      request_method = ''PROPFIND'', request_headers = None\<rparr> =
   Some (Inr \<lparr>text_status = 400, text_content = ''Disallowed CORS method'',
              text_headers =
                [(''Access-Control-Allow-Origin'', ''*''),
                 (''Access-Control-Allow-Methods'', ''DELETE, GET, HEAD, OPTIONS, PATCH, POST, PUT''),
                 (''Access-Control-Max-Age'', ''600'')]\<rparr>)"
proof -
  have c: "cors_of (snd (start calm)) = Some cors_policy"
    by (simp add: cors_of_def serving_state(1) [OF serving_calm] built_app_def)
  obtain s where s: "start calm = (Serving, s)"
    using serving_state(4) [OF serving_calm] by blast
  then have "cors_of s = Some cors_policy" using c by simp
  then show ?thesis
    by (simp add: serve_preflight_def s handle_preflight_def preflight_response_cors_policy
        ALL_METHODS_def)
qed

text \<open>
  C8, amended. The application of a serving process carries one middleware, the CORS
  middleware registered with origins, methods, headers and exposed headers all set to the
  wildcard and credentials off. The framework expands the wildcard of the methods to
  DELETE, GET, HEAD, OPTIONS, PATCH, POST and PUT. Consequently a preflight is answered by
  that middleware; it is permitted (200) for every origin and every requested header
  list when its method is one of these seven, and refused (400, for the method alone)
  otherwise; the answer allows the origin "*", mirrors the requested headers, and never
  has an Access-Control-Allow-Credentials header. Other responses expose all headers.
\<close>

theorem cors_policy_registered:
  assumes "fst (start w) = Serving"
  shows "app (snd (start w)) = Some (built_app w)
       \<and> user_middleware (built_app w) = [CORSMiddleware cors_policy]
       \<and> allow_origins cors_policy = [''*'']
       \<and> allow_credentials cors_policy = False
       \<and> allow_methods cors_policy = [''*'']
       \<and> allow_headers cors_policy = [''*'']
       \<and> expose_headers cors_policy = [''*'']
       \<and> effective_methods cors_policy =
           [''DELETE'', ''GET'', ''HEAD'', ''OPTIONS'', ''PATCH'', ''POST'', ''PUT'']
       \<and> simple_headers cors_policy =
           [(''Access-Control-Allow-Origin'', ''*''), (''Access-Control-Expose-Headers'', ''*'')]
       \<and> serve_preflight w q = Some (Inr (preflight_response cors_policy q))
       \<and> text_status (preflight_response cors_policy q) =
           (if request_method q \<in> set (effective_methods cors_policy) then 200 else 400)
       \<and> text_content (preflight_response cors_policy q) =
           (if request_method q \<in> set (effective_methods cors_policy) then ''OK''
            else ''Disallowed CORS method'')
       \<and> text_headers (preflight_response cors_policy q) =
           [(''Access-Control-Allow-Origin'', ''*''),
            (''Access-Control-Allow-Methods'', ''DELETE, GET, HEAD, OPTIONS, PATCH, POST, PUT''),
            (''Access-Control-Max-Age'', ''600'')] @
           (case request_headers q of
              None \<Rightarrow> []
            | Some h \<Rightarrow> [(''Access-Control-Allow-Headers'', h)])
       \<and> ''Access-Control-Allow-Credentials''
            \<notin> fst ` set (text_headers (preflight_response cors_policy q))"
proof -
  have a: "app (snd (start w)) = Some (built_app w)"
    by (rule serving_state(1) [OF assms])
  have m: "user_middleware (built_app w) = [CORSMiddleware cors_policy]"
    by (simp add: built_app_def)
  have c: "cors_of (snd (start w)) = Some cors_policy"
    by (simp add: cors_of_def a m)
  obtain s where s: "start w = (Serving, s)"
    using serving_state(4) [OF assms] by blast
  then have "cors_of s = Some cors_policy" using c by simp
  then have p: "serve_preflight w q = Some (Inr (preflight_response cors_policy q))"
    by (simp add: serve_preflight_def s handle_preflight_def)
  have e: "effective_methods cors_policy = ALL_METHODS"
    by (simp add: effective_methods_def cors_policy_def)
  have sh: "simple_headers cors_policy =
           [(''Access-Control-Allow-Origin'', ''*''), (''Access-Control-Expose-Headers'', ''*'')]"
    by (simp add: simple_headers_def allow_all_origins_def cors_policy_def)
  have cred: "''Access-Control-Allow-Credentials''
            \<notin> fst ` set (text_headers (preflight_response cors_policy q))"
    by (cases "request_headers q") (simp_all add: preflight_response_cors_policy)
  have cfg: "allow_origins cors_policy = [''*'']" "allow_credentials cors_policy = False"
    "allow_methods cors_policy = [''*'']" "allow_headers cors_policy = [''*'']"
    "expose_headers cors_policy = [''*'']"
    by (simp_all add: cors_policy_def)
  have e': "effective_methods cors_policy =
           [''DELETE'', ''GET'', ''HEAD'', ''OPTIONS'', ''PATCH'', ''POST'', ''PUT'']"
    using e by (simp add: ALL_METHODS_def)
  have st: "text_status (preflight_response cors_policy q) =
           (if request_method q \<in> set (effective_methods cors_policy) then 200 else 400)"
    and tc: "text_content (preflight_response cors_policy q) =
           (if request_method q \<in> set (effective_methods cors_policy) then ''OK''
            else ''Disallowed CORS method'')"
    and th: "text_headers (preflight_response cors_policy q) =
           [(''Access-Control-Allow-Origin'', ''*''),
            (''Access-Control-Allow-Methods'', ''DELETE, GET, HEAD, OPTIONS, PATCH, POST, PUT''),
            (''Access-Control-Max-Age'', ''600'')] @
           (case request_headers q of
              None \<Rightarrow> []
            | Some h \<Rightarrow> [(''Access-Control-Allow-Headers'', h)])"
    unfolding e by (simp_all add: preflight_response_cors_policy)
  show ?thesis
    using a m cfg e' sh p st tc th cred by blast
qed

theorem cors_policy_registered_witness:
  "fst (start calm) = Serving
   \<and> serve_preflight calm
        \<lparr>request_path = ''/api/v1/items'', origin = ''https://example.test'',
         request_method = ''DELETE'', request_headers = Some ''X-Token, Content-Type''\<rparr> =
       Some (Inr (preflight_response cors_policy
        \<lparr>request_path = ''/api/v1/items'', origin = ''https://example.test'',
         request_method = ''DELETE'', request_headers = Some ''X-Token, Content-Type''\<rparr>))
   \<and> text_status (preflight_response cors_policy
        \<lparr>request_path = ''/api/v1/items'', origin = ''https://example.test'',
         request_method = ''DELETE'', request_headers = Some ''X-Token, Content-Type''\<rparr>) = 200
   \<and> text_headers (preflight_response cors_policy
        \<lparr>request_path = ''/api/v1/items'', origin = ''https://example.test'',
         request_method = ''DELETE'', request_headers = Some ''X-Token, Content-Type''\<rparr>) =
       [(''Access-Control-Allow-Origin'', ''*''),
        (''Access-Control-Allow-Methods'', ''DELETE, GET, HEAD, OPTIONS, PATCH, POST, PUT''),
        (''Access-Control-Max-Age'', ''600''),
        (''Access-Control-Allow-Headers'', ''X-Token, Content-Type'')]"
proof -
  have e: "effective_methods cors_policy =
           [''DELETE'', ''GET'', ''HEAD'', ''OPTIONS'', ''PATCH'', ''POST'', ''PUT'']"
    by (simp add: effective_methods_def cors_policy_def ALL_METHODS_def)
  show ?thesis
    using cors_policy_registered [OF serving_calm, of
        "\<lparr>request_path = ''/api/v1/items'', origin = ''https://example.test'',
         request_method = ''DELETE'', request_headers = Some ''X-Token, Content-Type''\<rparr>"]
      serving_calm
    by (simp add: e)
qed



subsection \<open>The statements that begin to execute\<close>

lemma block_append:
  "block (xs @ ys) s =
     (case block xs s of (None, s') \<Rightarrow> block ys s' | (Some e, s') \<Rightarrow> (Some e, s'))"
  by (induction xs arbitrary: s) (auto split: prod.splits option.splits)

lemma started_append:
  "started (xs @ ys) s =
     started xs s @ (case block (map snd xs) s of (None, s') \<Rightarrow> started ys s' | (Some e, s') \<Rightarrow> [])"
  by (induction xs arbitrary: s) (auto split: prod.splits option.splits)

lemma started_stage:
  "(st, t, r) \<in> set (started xs s) \<Longrightarrow> st \<in> fst ` set xs"
proof (induction xs arbitrary: s)
  case Nil
  then show ?case by simp
next
  case (Cons x xs)
  obtain st' c where x: "x = (st', c)" by (cases x)
  show ?case
  proof (cases "c s")
    case (Pair r' s')
    show ?thesis
      using Cons.prems Cons.IH [of s'] x Pair
      by (cases r') (auto simp: image_iff)
  qed
qed

lemma started_invariant:
  assumes "P s" and "\<forall>x \<in> set xs. \<forall>u. P u \<longrightarrow> P (snd (snd x u))"
    and "(st, t, r) \<in> set (started xs s)"
  shows "P t"
  using assms
proof (induction xs arbitrary: s)
  case Nil
  then show ?case by simp
next
  case (Cons x xs)
  obtain st' c where x: "x = (st', c)" by (cases x)
  show ?case
  proof (cases "c s")
    case (Pair r' s')
    have "P (snd (c s))"
      using Cons.prems(1,2) x by simp
    then have step: "P s'"
      using Pair by simp
    have later: "\<forall>x \<in> set xs. \<forall>u. P u \<longrightarrow> P (snd (snd x u))"
      using Cons.prems(2) by simp
    show ?thesis
    proof (cases r')
      case None
      then have "(st, t, r) = (st', s, None) \<or> (st, t, r) \<in> set (started xs s')"
        using Cons.prems(3) x Pair by simp
      then show ?thesis
      proof
        assume "(st, t, r) = (st', s, None)"
        then show ?thesis using Cons.prems(1) by simp
      next
        assume "(st, t, r) \<in> set (started xs s')"
        then show ?thesis using Cons.IH [of s'] step later by blast
      qed
    next
      case (Some e)
      then have "(st, t, r) = (st', s, Some e)"
        using Cons.prems(3) x Pair by simp
      then show ?thesis using Cons.prems(1) by simp
    qed
  qed
qed

text \<open>An exception that a statement lets out is the exception that ends the suite.\<close>

lemma started_raises:
  "(st, t, Some e) \<in> set (started xs s) \<Longrightarrow> fst (block (map snd xs) s) = Some e"
proof (induction xs arbitrary: s)
  case Nil
  then show ?case by simp
next
  case (Cons x xs)
  obtain st' c where x: "x = (st', c)" by (cases x)
  show ?case
  proof (cases "c s")
    case (Pair r' s')
    show ?thesis
    proof (cases r')
      case None
      then have "(st, t, Some e) \<in> set (started xs s')"
        using Cons.prems x Pair by simp
      then have "fst (block (map snd xs) s') = Some e" by (rule Cons.IH)
      then show ?thesis using x Pair None by simp
    next
      case (Some e')
      then have "e' = e" using Cons.prems x Pair by simp
      then show ?thesis using x Pair Some by simp
    qed
  qed
qed

lemma started_after_prefix:
  assumes "(st, t, r) \<in> set (started (xs @ ys) s)" and "st \<notin> fst ` set xs"
  shows "\<exists>s1. block (map snd xs) s = (None, s1) \<and> (st, t, r) \<in> set (started ys s1)"
proof -
  have "(st, t, r) \<notin> set (started xs s)"
    using started_stage assms(2) by blast
  then have later: "(st, t, r) \<in> set (case block (map snd xs) s of
                      (None, s') \<Rightarrow> started ys s' | (Some e, s') \<Rightarrow> [])"
    using assms(1) by (simp add: started_append)
  obtain r' s1 where b: "block (map snd xs) s = (r', s1)"
    by (cases "block (map snd xs) s")
  show ?thesis
  proof (cases r')
    case None
    then show ?thesis using later b by simp
  next
    case (Some e)
    then show ?thesis using later b by simp
  qed
qed

lemma started_in_prefix:
  assumes "(st, t, r) \<in> set (started (xs @ ys) s)" and "st \<notin> fst ` set ys"
  shows "(st, t, r) \<in> set (started xs s)"
proof (rule ccontr)
  assume n: "(st, t, r) \<notin> set (started xs s)"
  then have later: "(st, t, r) \<in> set (case block (map snd xs) s of
                      (None, s') \<Rightarrow> started ys s' | (Some e, s') \<Rightarrow> [])"
    using assms(1) by (simp add: started_append)
  obtain r' s1 where b: "block (map snd xs) s = (r', s1)"
    by (cases "block (map snd xs) s")
  have "(st, t, r) \<in> set (started ys s1)"
    using later b by (cases r') simp_all
  then show False using started_stage assms(2) by blast
qed

lemma block_snoc_None:
  assumes "block (cs @ [c]) s = (None, s1)"
  shows "\<exists>s0. c s0 = (None, s1)"
proof -
  obtain r s0 where b: "block cs s = (r, s0)"
    by (cases "block cs s")
  obtain r' s' where c: "c s0 = (r', s')"
    by (cases "c s0")
  have "r = None \<and> r' = None \<and> s' = s1"
    using assms b c by (cases r; cases r') (simp_all add: block_append)
  then show ?thesis using c by blast
qed

lemma app_get_health_registers:
  "app_get w ''/health'' HealthCheck s = (None, s') \<Longrightarrow> health_registered s'"
  by (auto simp: app_get_def stmt_defs health_registered_def split: option.splits)

lemma logger_info_keeps_health:
  "health_registered t \<Longrightarrow> health_registered (snd (logger_info m t))"
  by (simp add: logger_info_def assign_def health_registered_def)

lemma import_init_db_keeps_health:
  "health_registered t \<Longrightarrow> health_registered (snd (import_init_db w t))"
  by (auto simp: import_init_db_def stmt_defs health_registered_def split: option.splits)

lemma import_api_router_keeps_health:
  "health_registered t \<Longrightarrow> health_registered (snd (import_api_router w t))"
  by (auto simp: import_api_router_def stmt_defs health_registered_def split: option.splits)

lemma include_router_keeps_health:
  "health_registered t \<Longrightarrow> health_registered (snd (include_router w t))"
  by (auto simp: include_router_def stmt_defs health_registered_def split: option.splits)

lemma set_specific_loggers_keeps_health:
  "health_registered t \<Longrightarrow> health_registered (snd (set_specific_loggers w t))"
  by (auto simp: set_specific_loggers_def setLevel_def stmt_defs health_registered_def
      split: option.splits)

lemma on_event_keeps_health:
  "health_registered t \<Longrightarrow> health_registered (snd (on_event w n h t))"
  by (auto simp: on_event_def stmt_defs health_registered_def split: option.splits)

lemma configure_logging_no_health:
  "\<not> health_registered t \<Longrightarrow> \<not> health_registered (snd (configure_logging w t))"
  by (auto simp: configure_logging_def stmt_defs health_registered_def split: option.splits)

lemma load_settings_no_health:
  "\<not> health_registered t \<Longrightarrow> \<not> health_registered (snd (load_settings w t))"
  by (auto simp: load_settings_def stmt_defs health_registered_def split: option.splits)

lemma create_app_no_health:
  "\<not> health_registered t \<Longrightarrow> \<not> health_registered (snd (create_app w t))"
  by (auto simp: create_app_def stmt_defs health_registered_def split: option.splits)

lemma add_cors_no_health:
  "\<not> health_registered t \<Longrightarrow> \<not> health_registered (snd (add_cors w t))"
  by (auto simp: add_cors_def stmt_defs health_registered_def split: option.splits)

text \<open>
  C3, as the specification states it, at the world in which nothing raises: the second
  statement to execute is the settings import, a fatal stage, and it starts from a state
  with no application object, hence with no health endpoint registered.
\<close>

theorem fatal_stage_before_health_registered:
  "fst (started (main_module calm) initial ! 1) = LoadConfig
   \<and> policy_of (fst (started (main_module calm) initial ! 1)) = fatal
   \<and> app (fst (snd (started (main_module calm) initial ! 1))) = None
   \<and> \<not> health_registered (fst (snd (started (main_module calm) initial ! 1)))"
  by (simp add: main_module_def calm_def initial_def configure_logging_def stmt_defs
      health_registered_def)

text \<open>
  C3, amended. In every execution of the module body, each statement of a stage that
  comes after the registration of the endpoints (the database-module import, the router
  import, the attachment of the router, the logger levels, the lifecycle handlers) starts
  from a state in which the health endpoint is registered on the application object, and
  each statement of a stage that comes before it (the logging configuration, the
  settings import, the construction of the application object with its middleware)
  starts from a state in which it is not. All these stages are fatal: an exception that
  one of their statements lets out is the exception with which the import of the module
  fails, and the process then does not serve.
\<close>

theorem health_registered_before_heavy_stages:
  assumes "(st, t, r) \<in> set (started (main_module w) initial)"
  shows "(after_endpoints st \<longrightarrow> health_registered t)
       \<and> (before_endpoints st \<longrightarrow> \<not> health_registered t)
       \<and> policy_of st = fatal
       \<and> (r \<noteq> None \<longrightarrow> fst (import_main w) = r \<and> fst (start w) \<noteq> Serving)"
proof -
  let ?pre = "[(ConfigureLogging, configure_logging w),
      (LoadConfig, load_settings w),
      (ConstructHandle, create_app w),
      (ConstructHandle, add_cors w)]"
  let ?reg = "[(RegisterEndpoints, app_get w ''/'' Root),
      (RegisterEndpoints, app_get w ''/health'' HealthCheck)]"
  let ?post = "[(RegisterEndpoints, logger_info
         (check_mark @ '' Basic FastAPI app created, now importing API modules...'')),
      (ImportDatabase, import_init_db w),
      (ImportRouter, import_api_router w),
      (AttachRouter, include_router w),
      (AdjustVerbosity, set_specific_loggers w),
      (WireLifecycleHooks, on_event w ''startup'' StartupEvent),
      (WireLifecycleHooks, on_event w ''shutdown'' ShutdownEvent),
      (WireLifecycleHooks, logger_info (check_mark @ '' FastAPI app ready to serve requests''))]"
  have split: "main_module w = (?pre @ ?reg) @ ?post"
    and split': "main_module w = ?pre @ (?reg @ ?post)"
    by (simp_all add: main_module_def)
  have after: "health_registered t" if ae: "after_endpoints st"
  proof -
    have "st \<notin> fst ` set (?pre @ ?reg)"
      using ae by (auto simp: after_endpoints_def)
    then obtain s1 where b: "block (map snd (?pre @ ?reg)) initial = (None, s1)"
      and in_post: "(st, t, r) \<in> set (started ?post s1)"
      using started_after_prefix [of st t r "?pre @ ?reg" ?post initial] assms
      unfolding split by blast
    have "map snd (?pre @ ?reg) =
            (map snd ?pre @ [app_get w ''/'' Root]) @ [app_get w ''/health'' HealthCheck]"
      by simp
    then have "block ((map snd ?pre @ [app_get w ''/'' Root]) @
                 [app_get w ''/health'' HealthCheck]) initial = (None, s1)"
      using b by metis
    then obtain s0 where "app_get w ''/health'' HealthCheck s0 = (None, s1)"
      using block_snoc_None by blast
    then have h1: "health_registered s1"
      by (rule app_get_health_registers)
    have keep: "\<forall>x \<in> set ?post. \<forall>u. health_registered u \<longrightarrow> health_registered (snd (snd x u))"
      by (simp add: logger_info_keeps_health import_init_db_keeps_health
          import_api_router_keeps_health include_router_keeps_health
          set_specific_loggers_keeps_health on_event_keeps_health)
    show ?thesis
      using started_invariant [of health_registered s1 ?post st t r] h1 keep in_post by blast
  qed
  have before: "\<not> health_registered t" if be: "before_endpoints st"
  proof -
    have "st \<notin> fst ` set (?reg @ ?post)"
      using be by (auto simp: before_endpoints_def)
    then have in_pre: "(st, t, r) \<in> set (started ?pre initial)"
      using started_in_prefix [of st t r ?pre "?reg @ ?post" initial] assms
      unfolding split' by blast
    have h0: "\<not> health_registered initial"
      by (simp add: health_registered_def initial_def)
    have keep: "\<forall>x \<in> set ?pre. \<forall>u. \<not> health_registered u \<longrightarrow> \<not> health_registered (snd (snd x u))"
      by (simp add: configure_logging_no_health load_settings_no_health
          create_app_no_health add_cors_no_health)
    show ?thesis
      using started_invariant [of "\<lambda>u. \<not> health_registered u" initial ?pre st t r]
        h0 keep in_pre by blast
  qed
  have "st \<in> fst ` set (main_module w)"
    using assms by (rule started_stage)
  then have pol: "policy_of st = fatal"
    by (auto simp: main_module_def)
  have fatal: "fst (import_main w) = r \<and> fst (start w) \<noteq> Serving" if rn: "r \<noteq> None"
  proof -
    obtain e where e: "r = Some e" using rn by auto
    then have im: "fst (import_main w) = Some e"
      using assms started_raises unfolding import_main_def by blast
    then have "\<not> quiet w"
      using import_main_None_iff [of w] by simp
    then have "fst (start w) \<noteq> Serving"
      by (simp add: serving_iff)
    then show ?thesis using im e by simp
  qed
  show ?thesis
    using after before pol fatal by blast
qed

theorem health_registered_before_heavy_stages_witness:
  "started (main_module calm) initial ! 7 \<in> set (started (main_module calm) initial)
   \<and> fst (started (main_module calm) initial ! 7) = ImportDatabase
   \<and> after_endpoints ImportDatabase
   \<and> health_registered (fst (snd (started (main_module calm) initial ! 7)))
   \<and> started (main_module (failing ImportSettings)) initial ! 1
        \<in> set (started (main_module (failing ImportSettings)) initial)
   \<and> fst (started (main_module (failing ImportSettings)) initial ! 1) = LoadConfig
   \<and> before_endpoints LoadConfig
   \<and> \<not> health_registered (fst (snd (started (main_module (failing ImportSettings)) initial ! 1)))
   \<and> snd (snd (started (main_module (failing ImportSettings)) initial ! 1)) = Some boom
   \<and> fst (import_main (failing ImportSettings)) = Some boom
   \<and> fst (start (failing ImportSettings)) \<noteq> Serving"
proof -
  let ?a = "started (main_module calm) initial"
  let ?b = "started (main_module (failing ImportSettings)) initial"
  have la: "length ?a = 14"
    by (simp add: main_module_def calm_def initial_def stmt_defs module_defs)
  have sa: "fst (?a ! 7) = ImportDatabase"
    by (simp add: main_module_def calm_def initial_def stmt_defs module_defs)
  have ma: "?a ! 7 \<in> set ?a"
    using la by (simp add: nth_mem)
  then have ma': "(ImportDatabase, fst (snd (?a ! 7)), snd (snd (?a ! 7))) \<in> set ?a"
    using sa by (metis prod.collapse)
  have lb: "length ?b = 2"
    by (simp add: main_module_def failing_def calm_def initial_def stmt_defs module_defs)
  have sb: "fst (?b ! 1) = LoadConfig" and rb: "snd (snd (?b ! 1)) = Some boom"
    by (simp_all add: main_module_def failing_def calm_def initial_def stmt_defs module_defs)
  have mb: "?b ! 1 \<in> set ?b"
    using lb by (simp add: nth_mem)
  then have mb': "(LoadConfig, fst (snd (?b ! 1)), Some boom) \<in> set ?b"
    using sb rb by (metis prod.collapse)
  have ae: "after_endpoints ImportDatabase" and be: "before_endpoints LoadConfig"
    by (simp_all add: after_endpoints_def before_endpoints_def)
  show ?thesis
    using health_registered_before_heavy_stages [OF ma']
      health_registered_before_heavy_stages [OF mb'] ma sa mb sb rb ae be
    by simp
qed

end
